theory Spec2Isabelle
  imports Main
begin

section \<open>Errors\<close>

text \<open>
  Every failure of the Python code is a value. The word-level layer signals its contract
  violations with \<^verbatim>\<open>assert\<close>; the constructors below carry the names the specification
  gives to them. \<open>InterfaceConflict\<close> is the assertion failure of the composition operators,
  \<open>NameCollision\<close> the one of relabelling and of the disjoint union of bundle maps,
  \<open>UnknownSignal\<close> the \<^verbatim>\<open>KeyError\<close> of a bundle-map lookup. \<open>AssertionError\<close> is any other failed
  \<^verbatim>\<open>assert\<close>. \<open>NameError\<close>, \<open>TypeError\<close>, \<open>AttributeError\<close>, \<open>ValueError\<close>, \<open>IndexError\<close>, \<open>OverflowError\<close> and
  \<open>NotImplementedError\<close> are the
  Python exceptions of those names, and \<open>EngineError\<close> is a failure inside the bit-level engine.
\<close>

datatype error =
    InterfaceConflict
  | NameCollision
  | UnknownSignal
  | AssertionError
  | NameError string
  | TypeError
  | AttributeError
  | NotImplementedError
  | ValueError
  | IndexError
  | OverflowError
  | EngineError

definition ebind :: "error + 'a \<Rightarrow> ('a \<Rightarrow> error + 'b) \<Rightarrow> error + 'b" where
  "ebind m f = (case m of Inl e \<Rightarrow> Inl e | Inr x \<Rightarrow> f x)"

section \<open>Indexed bit names\<close>

text \<open>
  \<^verbatim>\<open>f"{root}[{i}]"\<close>: the decimal numeral of \<open>i\<close> between brackets, after the root.
\<close>

definition digit_char :: "nat \<Rightarrow> char" where
  "digit_char d = ''0123456789'' ! d"

fun str_nat :: "nat \<Rightarrow> string" where
  "str_nat n = (if n < 10 then [digit_char n] else str_nat (n div 10) @ [digit_char (n mod 10)])"

declare str_nat.simps [simp del]

definition indexed :: "string \<Rightarrow> nat \<Rightarrow> string" where
  "indexed root i = root @ ''['' @ str_nat i @ '']''"

definition named_indexes :: "nat \<Rightarrow> string \<Rightarrow> string list" where
  "named_indexes wordlen root = map (indexed root) [0..<wordlen]"

section \<open>The bit-level engine\<close>

text \<open>
  The And-Inverter-Graph package \<^verbatim>\<open>aiger\<close> is an external collaborator of the repository.
  It is modelled after its interface: a circuit has input names, an output map and a latch
  map from names to nodes, and initial latch values; nodes are the constant false, inputs,
  latch reads, two-input AND gates and inverters.
\<close>

datatype node =
    ConstFalse
  | Input string
  | LatchIn string
  | AndGate node node
  | Inverter node

record AIG =
  aig_inputs :: "string list"
  node_map :: "(string \<times> node) list"
  latch_map :: "(string \<times> node) list"
  latch2init :: "(string \<times> bool) list"

definition aig_outputs :: "AIG \<Rightarrow> string set" where
  "aig_outputs g = set (map fst (node_map g))"

definition aig_latches :: "AIG \<Rightarrow> string set" where
  "aig_latches g = set (map fst (latch_map g))"

fun modify_leafs :: "(string \<rightharpoonup> node) \<Rightarrow> (string \<rightharpoonup> node) \<Rightarrow> node \<Rightarrow> node" where
  "modify_leafs si sl ConstFalse = ConstFalse"
| "modify_leafs si sl (Input n) = (case si n of Some d \<Rightarrow> d | None \<Rightarrow> Input n)"
| "modify_leafs si sl (LatchIn n) = (case sl n of Some d \<Rightarrow> d | None \<Rightarrow> LatchIn n)"
| "modify_leafs si sl (AndGate a b) = AndGate (modify_leafs si sl a) (modify_leafs si sl b)"
| "modify_leafs si sl (Inverter a) = Inverter (modify_leafs si sl a)"

definition map_nodes :: "(node \<Rightarrow> node) \<Rightarrow> (string \<times> node) list \<Rightarrow> (string \<times> node) list" where
  "map_nodes f m = map (\<lambda>(n, d). (n, f d)) m"

text \<open>
  Sequential composition \<^verbatim>\<open>c1 >> c2\<close> of the engine: the outputs of \<open>c1\<close> that are inputs of
  \<open>c2\<close> are wired into \<open>c2\<close> and disappear from the interface.
\<close>

definition seq_compose :: "AIG \<Rightarrow> AIG \<Rightarrow> error + AIG" where
  "seq_compose c1 c2 =
     (let interface = aig_outputs c1 \<inter> set (aig_inputs c2) in
      if (aig_outputs c1 - interface) \<inter> aig_outputs c2 \<noteq> {} then Inl EngineError
      else if aig_latches c1 \<inter> aig_latches c2 \<noteq> {} then Inl EngineError
      else
        let wire = modify_leafs (map_of (node_map c1) |` interface) Map.empty in
        Inr \<lparr> aig_inputs = aig_inputs c1 @
                filter (\<lambda>n. n \<notin> interface \<and> n \<notin> set (aig_inputs c1)) (aig_inputs c2),
              node_map = filter (\<lambda>(n, d). n \<notin> interface) (node_map c1) @
                map_nodes wire (node_map c2),
              latch_map = latch_map c1 @ map_nodes wire (latch_map c2),
              latch2init = latch2init c1 @ latch2init c2 \<rparr>)"

text \<open>Parallel composition \<^verbatim>\<open>c1 | c2\<close> of the engine: inputs of the same name are shared.\<close>

definition par_compose :: "AIG \<Rightarrow> AIG \<Rightarrow> error + AIG" where
  "par_compose c1 c2 =
     (if aig_latches c1 \<inter> aig_latches c2 \<noteq> {} then Inl EngineError
      else if aig_outputs c1 \<inter> aig_outputs c2 \<noteq> {} then Inl EngineError
      else
        Inr \<lparr> aig_inputs = aig_inputs c1 @
                filter (\<lambda>n. n \<notin> set (aig_inputs c1)) (aig_inputs c2),
              node_map = node_map c1 @ node_map c2,
              latch_map = latch_map c1 @ latch_map c2,
              latch2init = latch2init c1 @ latch2init c2 \<rparr>)"

text \<open>
  Relabelling \<^verbatim>\<open>aig[kind, relabels]\<close> of the engine, \<open>kind\<close> one of \<^verbatim>\<open>'i'\<close>, \<^verbatim>\<open>'o'\<close>, \<^verbatim>\<open>'l'\<close>.
\<close>

definition rename :: "(string \<rightharpoonup> string) \<Rightarrow> string \<Rightarrow> string" where
  "rename r n = (case r n of Some m \<Rightarrow> m | None \<Rightarrow> n)"

definition rename_keys :: "(string \<rightharpoonup> string) \<Rightarrow> (string \<times> 'a) list \<Rightarrow> (string \<times> 'a) list" where
  "rename_keys r m = map (\<lambda>(n, d). (rename r n, d)) m"

definition aig_relabel :: "string \<Rightarrow> (string \<rightharpoonup> string) \<Rightarrow> AIG \<Rightarrow> error + AIG" where
  "aig_relabel kind r g =
     (if kind = ''i'' then
        Inr (g\<lparr> aig_inputs := map (rename r) (aig_inputs g),
                node_map := map_nodes (modify_leafs (map_option Input \<circ> r) Map.empty) (node_map g),
                latch_map := map_nodes (modify_leafs (map_option Input \<circ> r) Map.empty) (latch_map g) \<rparr>)
      else if kind = ''o'' then
        Inr (g\<lparr> node_map := rename_keys r (node_map g) \<rparr>)
      else if kind = ''l'' then
        Inr (g\<lparr> node_map := map_nodes (modify_leafs Map.empty (map_option LatchIn \<circ> r)) (node_map g),
                latch_map := rename_keys r
                  (map_nodes (modify_leafs Map.empty (map_option LatchIn \<circ> r)) (latch_map g)),
                latch2init := rename_keys r (latch2init g) \<rparr>)
      else Inl EngineError)"

section \<open>Bundle maps\<close>

text \<open>
  Modelled from the spec: the module \<^verbatim>\<open>aiger_bv/bundle.py\<close> (classes \<^verbatim>\<open>Bundle\<close> and
  \<^verbatim>\<open>BundleMap\<close>) is not among the source files. A bundle is an ordered sequence of bit names
  \<open>root[0], ..., root[n-1]\<close>, so it is given by its root and its size; a bundle map sends word
  names to bundles and is kept as an association list from word names to sizes. Lookup of an
  absent word name fails with \<open>UnknownSignal\<close>; \<open>+\<close> is the disjoint union and fails with
  \<open>NameCollision\<close> when the two maps share a word name; \<open>omit\<close> drops the named entries;
  \<open>relabel\<close> renames word names and carries the bundles along.
\<close>

type_synonym BundleMap = "(string \<times> nat) list"

definition keys :: "BundleMap \<Rightarrow> string set" where
  "keys m = set (map fst m)"

definition bundle_bits :: "string \<Rightarrow> nat \<Rightarrow> string list" where
  "bundle_bits root n = named_indexes n root"

definition bm_getitem :: "BundleMap \<Rightarrow> string \<Rightarrow> error + nat" where
  "bm_getitem m k = (case map_of m k of None \<Rightarrow> Inl UnknownSignal | Some n \<Rightarrow> Inr n)"

definition bm_add :: "BundleMap \<Rightarrow> BundleMap \<Rightarrow> error + BundleMap" where
  "bm_add m1 m2 = (if keys m1 \<inter> keys m2 \<noteq> {} then Inl NameCollision else Inr (m1 @ m2))"

definition omit :: "BundleMap \<Rightarrow> string set \<Rightarrow> BundleMap" where
  "omit m names = filter (\<lambda>(k, n). k \<notin> names) m"

definition bm_relabel :: "BundleMap \<Rightarrow> (string \<rightharpoonup> string) \<Rightarrow> BundleMap" where
  "bm_relabel m r = rename_keys r m"

section \<open>Word circuits (\<^verbatim>\<open>aiger_bv/aigbv.py\<close>)\<close>

record AIGBV =
  aig :: AIG
  imap :: BundleMap
  omap :: BundleMap
  lmap :: BundleMap

definition inputs :: "AIGBV \<Rightarrow> string set" where
  "inputs c = keys (imap c)"

definition outputs :: "AIGBV \<Rightarrow> string set" where
  "outputs c = keys (omap c)"

definition latches :: "AIGBV \<Rightarrow> string set" where
  "latches c = keys (lmap c)"

text \<open>\<^verbatim>\<open>AIGBV.__rshift__\<close>: the two assertions, then the constructor's arguments in order.\<close>

definition rshift :: "AIGBV \<Rightarrow> AIGBV \<Rightarrow> error + AIGBV" where
  "rshift self other =
     (let interface = outputs self \<inter> inputs other in
      if latches self \<inter> latches other \<noteq> {} then Inl InterfaceConflict
      else if (outputs self - interface) \<inter> outputs other \<noteq> {} then Inl InterfaceConflict
      else
        ebind (seq_compose (aig self) (aig other)) (\<lambda>g.
        ebind (bm_add (imap self) (omit (imap other) interface)) (\<lambda>im.
        ebind (bm_add (omap other) (omit (omap self) interface)) (\<lambda>om.
        ebind (bm_add (lmap self) (lmap other)) (\<lambda>lm.
        Inr \<lparr> aig = g, imap = im, omap = om, lmap = lm \<rparr>)))))"

text \<open>\<^verbatim>\<open>AIGBV.__lshift__\<close>.\<close>

definition lshift :: "AIGBV \<Rightarrow> AIGBV \<Rightarrow> error + AIGBV" where
  "lshift self other = rshift other self"

text \<open>
  \<^verbatim>\<open>AIGBV.__getitem__\<close>: \<open>relabels\<close> is a Python dict, kept as an association list with
  distinct keys. The bit-level rename table pairs the bits of every renamed bundle with
  the bits of the bundle under its new name; a later pair of the table replaces an earlier
  one. When no key of \<open>relabels\<close> is a word of the map, \<^verbatim>\<open>fn.merge\<close> of no dict is \<^verbatim>\<open>None\<close>, which
  the engine cannot use as a rename table.
\<close>

definition relabels_aig :: "BundleMap \<Rightarrow> BundleMap \<Rightarrow> (string \<times> string) list \<Rightarrow> error + (string \<times> string) list" where
  "relabels_aig bmap1 bmap2 relabels =
     foldr (\<lambda>(k, v) rest.
              ebind (bm_getitem bmap1 k) (\<lambda>n1.
              ebind (bm_getitem bmap2 v) (\<lambda>n2.
              ebind rest (\<lambda>table. Inr (table @ zip (bundle_bits k n1) (bundle_bits v n2))))))
           (rev (filter (\<lambda>(k, v). k \<in> keys bmap1) relabels)) (Inr [])"

definition getitem :: "AIGBV \<Rightarrow> string \<Rightarrow> (string \<times> string) list \<Rightarrow> error + AIGBV" where
  "getitem self kind relabels =
     (if kind \<notin> {''i'', ''o'', ''l''} then Inl NotImplementedError
      else
        let bmap1 = (if kind = ''i'' then imap self else if kind = ''o'' then omap self else lmap self) in
        if set (map snd relabels) \<inter> keys bmap1 \<noteq> {} then Inl NameCollision
        else
          let bmap2 = bm_relabel bmap1 (map_of relabels);
              circ = (if kind = ''i'' then self\<lparr> imap := bmap2 \<rparr>
                      else if kind = ''o'' then self\<lparr> omap := bmap2 \<rparr>
                      else self\<lparr> lmap := bmap2 \<rparr>)
          in
            ebind (relabels_aig bmap1 bmap2 relabels) (\<lambda>table.
            if filter (\<lambda>(k, v). k \<in> keys bmap1) relabels = [] then Inl EngineError
            else
              ebind (aig_relabel kind (map_of (rev table)) (aig circ)) (\<lambda>g.
              Inr (circ\<lparr> aig := g \<rparr>))))"

section \<open>Small circuits for concrete runs\<close>

text \<open>
  \<open>wires ins outs\<close> is a combinational word circuit of one-bit words: inputs \<open>ins\<close>, and every
  output of \<open>outs\<close> driven by the constant false.
\<close>

definition wires :: "string list \<Rightarrow> string list \<Rightarrow> AIGBV" where
  "wires ins outs =
     \<lparr> aig = \<lparr> aig_inputs = map (\<lambda>n. indexed n 0) ins,
                node_map = map (\<lambda>n. (indexed n 0, ConstFalse)) outs,
                latch_map = [], latch2init = [] \<rparr>,
       imap = map (\<lambda>n. (n, 1)) ins,
       omap = map (\<lambda>n. (n, 1)) outs,
       lmap = [] \<rparr>"

text \<open>
  A word circuit is well formed when the input, output and latch names of its bit-level
  circuit are the bits of its three bundle maps.
\<close>

definition well_formed :: "AIGBV \<Rightarrow> bool" where
  "well_formed c \<longleftrightarrow>
     set (aig_inputs (aig c)) = (\<Union>(k, n) \<in> set (imap c). set (bundle_bits k n)) \<and>
     aig_outputs (aig c) = (\<Union>(k, n) \<in> set (omap c). set (bundle_bits k n)) \<and>
     aig_latches (aig c) = (\<Union>(k, n) \<in> set (lmap c). set (bundle_bits k n))"

section \<open>Gates (\<^verbatim>\<open>aiger_bv/common.py\<close>)\<close>

text \<open>
  Modelled from the spec: the module \<^verbatim>\<open>aiger_bv/common.py\<close> with the gate synthesizer of the
  present package is not among the source files. The gates used by the expression algebra
  are built per bit position, as the specification describes them: a constant source, a sink,
  the fan-out gates \<open>repeat_gate\<close> (one bit broadcast to \<open>wordlen\<close> copies) and \<open>tee\<close> (a
  word duplicated under several names), the identity, and the bitwise operations.
\<close>

definition const_node :: "bool \<Rightarrow> node" where
  "const_node b = (if b then Inverter ConstFalse else ConstFalse)"

definition or_node :: "node \<Rightarrow> node \<Rightarrow> node" where
  "or_node a b = Inverter (AndGate (Inverter a) (Inverter b))"

definition comb :: "string list \<Rightarrow> (string \<times> node) list \<Rightarrow> AIG" where
  "comb ins outs = \<lparr> aig_inputs = ins, node_map = outs, latch_map = [], latch2init = [] \<rparr>"

definition source_gate :: "nat \<Rightarrow> int \<Rightarrow> string \<Rightarrow> AIGBV" where
  "source_gate wordlen val name =
     \<lparr> aig = comb [] (map (\<lambda>i. (indexed name i, const_node (bit val i))) [0..<wordlen]),
       imap = [], omap = [(name, wordlen)], lmap = [] \<rparr>"


definition repeat_gate :: "nat \<Rightarrow> string \<Rightarrow> string \<Rightarrow> AIGBV" where
  "repeat_gate wordlen inp out =
     \<lparr> aig = comb [indexed inp 0] (map (\<lambda>i. (indexed out i, Input (indexed inp 0))) [0..<wordlen]),
       imap = [(inp, 1)], omap = [(out, wordlen)], lmap = [] \<rparr>"

definition tee :: "nat \<Rightarrow> string \<Rightarrow> string list \<Rightarrow> AIGBV" where
  "tee wordlen orig news =
     \<lparr> aig = comb (bundle_bits orig wordlen)
         (concat (map (\<lambda>new. map (\<lambda>i. (indexed new i, Input (indexed orig i))) [0..<wordlen]) news)),
       imap = [(orig, wordlen)], omap = map (\<lambda>new. (new, wordlen)) news, lmap = [] \<rparr>"

definition identity_gate :: "nat \<Rightarrow> string \<Rightarrow> string \<Rightarrow> AIGBV" where
  "identity_gate wordlen inp out =
     \<lparr> aig = comb (bundle_bits inp wordlen)
         (map (\<lambda>i. (indexed out i, Input (indexed inp i))) [0..<wordlen]),
       imap = [(inp, wordlen)], omap = [(out, wordlen)], lmap = [] \<rparr>"

definition bitwise_negate :: "nat \<Rightarrow> string \<Rightarrow> string \<Rightarrow> AIGBV" where
  "bitwise_negate wordlen inp out =
     \<lparr> aig = comb (bundle_bits inp wordlen)
         (map (\<lambda>i. (indexed out i, Inverter (Input (indexed inp i)))) [0..<wordlen]),
       imap = [(inp, wordlen)], omap = [(out, wordlen)], lmap = [] \<rparr>"

definition bitwise_binop :: "(node \<Rightarrow> node \<Rightarrow> node) \<Rightarrow> nat \<Rightarrow> string \<Rightarrow> string \<Rightarrow> string \<Rightarrow> AIGBV" where
  "bitwise_binop binop wordlen left right out =
     \<lparr> aig = comb (remdups (bundle_bits left wordlen @ bundle_bits right wordlen))
         (map (\<lambda>i. (indexed out i, binop (Input (indexed left i)) (Input (indexed right i))))
            [0..<wordlen]),
       imap = [(left, wordlen), (right, wordlen)], omap = [(out, wordlen)], lmap = [] \<rparr>"

definition bitwise_and :: "nat \<Rightarrow> string \<Rightarrow> string \<Rightarrow> string \<Rightarrow> AIGBV" where
  "bitwise_and = bitwise_binop AndGate"

definition bitwise_or :: "nat \<Rightarrow> string \<Rightarrow> string \<Rightarrow> string \<Rightarrow> AIGBV" where
  "bitwise_or = bitwise_binop or_node"

section \<open>Parallel composition of word circuits\<close>

text \<open>
  \<^verbatim>\<open>AIGBV.__or__\<close>. The names that the generator \<^verbatim>\<open>common._fresh\<close> hands out for the shared
  inputs are given by \<open>fresh1\<close> and \<open>fresh2\<close>. After the relabelling, \<open>self\<close> and \<open>other\<close> are
  the relabelled circuits, and the loop over the shared inputs reads
  \<^verbatim>\<open>len(self.imap[orig])\<close> from the relabelled \<open>self\<close>, as the source does.
\<close>

fun tee_loop :: "AIGBV \<Rightarrow> (string \<Rightarrow> string) \<Rightarrow> (string \<Rightarrow> string) \<Rightarrow> string list \<Rightarrow> AIGBV \<Rightarrow> error + AIGBV" where
  "tee_loop self fresh1 fresh2 [] circ = Inr circ"
| "tee_loop self fresh1 fresh2 (orig # rest) circ =
     ebind (bm_getitem (imap self) orig) (\<lambda>n.
     ebind (lshift circ (tee n orig [fresh1 orig, fresh2 orig])) (\<lambda>circ'.
     tee_loop self fresh1 fresh2 rest circ'))"

definition aigbv_or :: "AIGBV \<Rightarrow> AIGBV \<Rightarrow> (string \<Rightarrow> string) \<Rightarrow> (string \<Rightarrow> string) \<Rightarrow> error + AIGBV" where
  "aigbv_or self other fresh1 fresh2 =
     (if outputs self \<inter> outputs other \<noteq> {} then Inl InterfaceConflict
      else if latches self \<inter> latches other \<noteq> {} then Inl InterfaceConflict
      else
        let shared_inputs = filter (\<lambda>n. n \<in> inputs other) (remdups (map fst (imap self)));
            relabels1 = map (\<lambda>n. (n, fresh1 n)) shared_inputs;
            relabels2 = map (\<lambda>n. (n, fresh2 n)) shared_inputs
        in
          ebind (if shared_inputs \<noteq> []
                 then ebind (getitem self ''i'' relabels1) (\<lambda>self'.
                      ebind (getitem other ''i'' relabels2) (\<lambda>other'. Inr (self', other')))
                 else Inr (self, other)) (\<lambda>(self', other').
          ebind (par_compose (aig self') (aig other')) (\<lambda>g.
          ebind (bm_add (imap self') (imap other')) (\<lambda>im.
          ebind (bm_add (omap self') (omap other')) (\<lambda>om.
          ebind (bm_add (lmap self') (lmap other')) (\<lambda>lm.
          if shared_inputs \<noteq> []
          then tee_loop self' fresh1 fresh2 shared_inputs \<lparr> aig = g, imap = im, omap = om, lmap = lm \<rparr>
          else Inr \<lparr> aig = g, imap = im, omap = om, lmap = lm \<rparr>))))))"

section \<open>Expressions (\<^verbatim>\<open>aiger_bv/expr.py\<close>)\<close>

text \<open>
  An expression object holds one field \<^verbatim>\<open>aigbv\<close>; its class (\<^verbatim>\<open>UnsignedBVExpr\<close> or
  \<^verbatim>\<open>SignedBVExpr\<close>) is the flag \<open>signed\<close>. Python does not check what the field holds:
  \<open>Wrapped\<close> is the object that \<^verbatim>\<open>type(expr1)(same_circ(expr1))\<close> builds when \<^verbatim>\<open>same_circ\<close>
  returns the expression itself, an expression whose field holds an expression.
\<close>

datatype expr =
    BVExpr bool AIGBV
  | Wrapped bool expr

text \<open>
  The properties \<^verbatim>\<open>size\<close> and \<^verbatim>\<open>output\<close> take the first value and the first key of the
  output map (\<^verbatim>\<open>fn.first\<close> gives \<^verbatim>\<open>None\<close> on an empty map). The values of a bundle map are
  taken to be the sizes of its bundles, after the specification: the size of an expression
  is the bundle length of its sole output. On a wrapped expression the two properties read
  \<^verbatim>\<open>omap\<close> and \<^verbatim>\<open>outputs\<close> of an expression object, which has neither.
\<close>

fun expr_size :: "expr \<Rightarrow> error + nat option" where
  "expr_size (BVExpr sg c) = Inr (case omap c of [] \<Rightarrow> None | (k, n) # rest \<Rightarrow> Some n)"
| "expr_size (Wrapped sg e) = Inl AttributeError"

fun expr_output :: "expr \<Rightarrow> error + string option" where
  "expr_output (BVExpr sg c) = Inr (case omap c of [] \<Rightarrow> None | (k, n) # rest \<Rightarrow> Some k)"
| "expr_output (Wrapped sg e) = Inl AttributeError"

fun expr_inputs :: "expr \<Rightarrow> string list" where
  "expr_inputs (BVExpr sg c) = remdups (map fst (imap c))"
| "expr_inputs (Wrapped sg e) = expr_inputs e"

fun is_signed :: "expr \<Rightarrow> bool" where
  "is_signed (BVExpr sg c) = sg"
| "is_signed (Wrapped sg e) = sg"

text \<open>
  \<^verbatim>\<open>self.aigbv >> gate\<close> inside a method: on a wrapped expression the field is an expression,
  whose own \<^verbatim>\<open>__rshift__\<close> is the shift operator and rejects a circuit as shift amount.
\<close>

fun then_gate :: "expr \<Rightarrow> AIGBV \<Rightarrow> error + expr" where
  "then_gate (BVExpr sg c) gate = ebind (rshift c gate) (\<lambda>c'. Inr (BVExpr sg c'))"
| "then_gate (Wrapped sg e) gate = Inl TypeError"

text \<open>\<^verbatim>\<open>UnsignedBVExpr.repeat\<close>; \<open>fresh\<close> is the name that \<^verbatim>\<open>cmn._fresh()\<close> returns.\<close>

definition expr_repeat :: "expr \<Rightarrow> nat \<Rightarrow> string \<Rightarrow> error + expr" where
  "expr_repeat self n_times fresh =
     ebind (expr_size self) (\<lambda>sz.
     if sz \<noteq> Some 1 then Inl AssertionError
     else
       ebind (expr_output self) (\<lambda>out.
       case out of
         None \<Rightarrow> Inl TypeError
       | Some out \<Rightarrow> then_gate self (repeat_gate n_times out fresh)))"

section \<open>Feedback in the engine\<close>

text \<open>
  \<^verbatim>\<open>aig.feedback(inputs, outputs, initials, latches, keep_outputs)\<close> of the engine: every
  named input becomes a read of a new latch, and the node of the paired output becomes the
  next-state node of that latch. Latch names default to the input names and initial values
  to false.
\<close>

definition aig_feedback ::
  "AIG \<Rightarrow> string list \<Rightarrow> string list \<Rightarrow> bool list option \<Rightarrow> string list option \<Rightarrow> bool \<Rightarrow> error + AIG" where
  "aig_feedback g ins outs initials lats keep_outputs =
     (let lats = (case lats of None \<Rightarrow> ins | Some l \<Rightarrow> l);
          initials = (case initials of None \<Rightarrow> map (\<lambda>_. False) ins | Some v \<Rightarrow> v)
      in
        if \<not> (length ins = length outs \<and> length outs = length initials \<and>
              length initials = length lats) then Inl EngineError
        else if set ins \<inter> set (aig_inputs g) = {} then Inl EngineError
        else if set outs \<inter> aig_outputs g = {} then Inl EngineError
        else
          let sub = modify_leafs (map_of (zip ins (map LatchIn lats))) Map.empty;
              nm = map_nodes sub (node_map g);
              fed = filter (\<lambda>(n, d). n \<in> set outs) nm
          in
            Inr \<lparr> aig_inputs = filter (\<lambda>n. n \<notin> set ins) (aig_inputs g),
                  node_map = (if keep_outputs then nm else filter (\<lambda>(n, d). n \<notin> set outs) nm),
                  latch_map = map_nodes sub (latch_map g) @ rename_keys (map_of (zip outs lats)) fed,
                  latch2init = latch2init g @ zip lats initials \<rparr>)"

section \<open>Values of words\<close>

text \<open>
  Modelled from the spec: \<^verbatim>\<open>BundleMap.blast\<close> and \<^verbatim>\<open>BundleMap.unblast\<close> of the absent
  \<^verbatim>\<open>bundle.py\<close>. A word value is the sequence of its bits, lowest index first. \<open>bm_blast\<close>
  expands every word value into bit values along its bundle and fails with \<open>UnknownSignal\<close> on
  a word name that the map does not have; \<open>bm_unblast\<close> reassembles, for every word of the
  map, the values of its bits.
\<close>

fun bm_blast :: "BundleMap \<Rightarrow> (string \<times> bool list) list \<Rightarrow> error + (string \<times> bool) list" where
  "bm_blast m [] = Inr []"
| "bm_blast m ((k, v) # rest) =
     ebind (bm_getitem m k) (\<lambda>n.
     ebind (bm_blast m rest) (\<lambda>bits. Inr (zip (bundle_bits k n) v @ bits)))"

fun collect :: "(string \<rightharpoonup> bool) \<Rightarrow> string list \<Rightarrow> error + bool list" where
  "collect name2val [] = Inr []"
| "collect name2val (n # ns) =
     (case name2val n of
        None \<Rightarrow> Inl UnknownSignal
      | Some b \<Rightarrow> ebind (collect name2val ns) (\<lambda>bs. Inr (b # bs)))"

fun bm_unblast :: "BundleMap \<Rightarrow> (string \<rightharpoonup> bool) \<Rightarrow> error + (string \<times> bool list) list" where
  "bm_unblast [] name2val = Inr []"
| "bm_unblast ((k, n) # rest) name2val =
     ebind (collect name2val (bundle_bits k n)) (\<lambda>v.
     ebind (bm_unblast rest name2val) (\<lambda>vs. Inr ((k, v) # vs)))"

section \<open>Lifting bit-level circuits (\<^verbatim>\<open>aiger_bv/aigbv.py\<close>)\<close>

text \<open>
  \<^verbatim>\<open>unpack_name\<close>: the regular expression \<^verbatim>\<open>(.*)\[(\d+)\]$\<close> splits a name into the root before
  the last bracket and the decimal index inside it. A name that does not match gives
  \<^verbatim>\<open>None\<close>, whose \<^verbatim>\<open>groups\<close> is an \<open>AttributeError\<close>. (\<^verbatim>\<open>$\<close> also matches before one final
  newline, and \<^verbatim>\<open>.\<close> matches no newline.)
\<close>

definition is_digit :: "char \<Rightarrow> bool" where
  "is_digit c \<longleftrightarrow> c \<in> set ''0123456789''"

definition digit_val :: "char \<Rightarrow> nat" where
  "digit_val c = length (takeWhile (\<lambda>d. d \<noteq> c) ''0123456789'')"

definition int_of_digits :: "string \<Rightarrow> nat" where
  "int_of_digits ds = foldl (\<lambda>acc c. 10 * acc + digit_val c) 0 ds"

definition unpack_name :: "string \<Rightarrow> error + (string \<times> nat)" where
  "unpack_name name =
     (let r = (case rev name of c # rest \<Rightarrow> if c = CHR 0x0A then rest else c # rest | [] \<Rightarrow> [])
      in case r of
           c # rest \<Rightarrow>
             if c \<noteq> CHR '']'' then Inl AttributeError
             else
               let ds = takeWhile is_digit rest in
               (case dropWhile is_digit rest of
                  b # root_rev \<Rightarrow>
                    if b = CHR ''['' \<and> ds \<noteq> [] \<and> CHR 0x0A \<notin> set root_rev
                    then Inr (rev root_rev, int_of_digits (rev ds))
                    else Inl AttributeError
                | [] \<Rightarrow> Inl AttributeError)
         | [] \<Rightarrow> Inl AttributeError)"

text \<open>\<^verbatim>\<open>to_size\<close>: the indices of one root are distinct and run from 0 to their number less one.\<close>

definition to_size :: "nat list \<Rightarrow> error + nat" where
  "to_size idxs =
     (if \<not> distinct idxs then Inl AssertionError
      else if idxs = [] then Inl ValueError
      else if Min (set idxs) \<noteq> 0 then Inl AssertionError
      else if Max (set idxs) \<noteq> length idxs - 1 then Inl AssertionError
      else Inr (length idxs))"

text \<open>\<^verbatim>\<open>fn.group_values\<close>: the indices of every root, roots in the order of their first occurrence.\<close>

fun group_values :: "(string \<times> nat) list \<Rightarrow> (string \<times> nat list) list" where
  "group_values [] = []"
| "group_values ((root, i) # rest) =
     (root, i # map snd (filter (\<lambda>(r, j). r = root) rest)) #
     group_values (filter (\<lambda>(r, j). r \<noteq> root) rest)"

fun sequence :: "(error + 'a) list \<Rightarrow> error + 'a list" where
  "sequence [] = Inr []"
| "sequence (x # xs) = ebind x (\<lambda>y. ebind (sequence xs) (\<lambda>ys. Inr (y # ys)))"

definition rebundle_names :: "string list \<Rightarrow> error + BundleMap" where
  "rebundle_names names =
     ebind (sequence (map unpack_name names)) (\<lambda>pairs.
     sequence (map (\<lambda>(root, idxs). ebind (to_size idxs) (\<lambda>n. Inr (root, n))) (group_values pairs)))"

definition rebundle_aig :: "AIG \<Rightarrow> error + AIGBV" where
  "rebundle_aig g =
     ebind (rebundle_names (aig_inputs g)) (\<lambda>im.
     ebind (rebundle_names (remdups (map fst (node_map g)))) (\<lambda>om.
     ebind (rebundle_names (remdups (map fst (latch_map g)))) (\<lambda>lm.
     Inr \<lparr> aig = g, imap = im, omap = om, lmap = lm \<rparr>)))"

section \<open>Feedback (\<^verbatim>\<open>AIGBV.feedback\<close>)\<close>

text \<open>The property \<^verbatim>\<open>AIGBV.latch2init\<close>.\<close>

definition latch2init_words :: "AIGBV \<Rightarrow> error + (string \<times> bool list) list" where
  "latch2init_words c = bm_unblast (lmap c) (map_of (latch2init (aig c)))"

text \<open>
  The local function \<^verbatim>\<open>blast\<close> of \<^verbatim>\<open>feedback\<close>: \<^verbatim>\<open>fn.lmapcat(bmap.get, vals)\<close> joins the bundles
  of the named words; \<^verbatim>\<open>get\<close> gives \<^verbatim>\<open>None\<close> for an absent name, which cannot be iterated.
\<close>

fun lmapcat_get :: "BundleMap \<Rightarrow> string list \<Rightarrow> error + string list" where
  "lmapcat_get bmap [] = Inr []"
| "lmapcat_get bmap (v # vals) =
     (case map_of bmap v of
        None \<Rightarrow> Inl TypeError
      | Some n \<Rightarrow> ebind (lmapcat_get bmap vals) (\<lambda>bits. Inr (bundle_bits v n @ bits)))"

text \<open>
  The dict comprehension \<^verbatim>\<open>{l: self.imap[i].size for i, l in zip(inputs, latches)}\<close>: a later
  pair with the same latch name replaces the earlier one.
\<close>

fun dict_set :: "string \<Rightarrow> 'a \<Rightarrow> (string \<times> 'a) list \<Rightarrow> (string \<times> 'a) list" where
  "dict_set k v [] = [(k, v)]"
| "dict_set k v ((k', v') # rest) = (if k = k' then (k, v) # rest else (k', v') # dict_set k v rest)"

fun latch_sizes :: "BundleMap \<Rightarrow> (string \<times> string) list \<Rightarrow> BundleMap \<Rightarrow> error + BundleMap" where
  "latch_sizes im [] acc = Inr acc"
| "latch_sizes im ((i, l) # rest) acc =
     ebind (bm_getitem im i) (\<lambda>n. latch_sizes im rest (dict_set l n acc))"

text \<open>
  \<^verbatim>\<open>AIGBV.feedback\<close>. The engine's \<^verbatim>\<open>feedback\<close> is called without initial values. When
  \<open>initials\<close> is given, \<^verbatim>\<open>dict(aig.latch2init).update(...)\<close> is \<^verbatim>\<open>None\<close> (\<^verbatim>\<open>update\<close> returns
  nothing), and \<^verbatim>\<open>l2init[l]\<close> for the first latch name is a \<open>TypeError\<close>.
\<close>

definition feedback ::
  "AIGBV \<Rightarrow> string list \<Rightarrow> string list \<Rightarrow> bool list option list option \<Rightarrow>
     string list option \<Rightarrow> bool \<Rightarrow> error + AIGBV" where
  "feedback self ins outs initials lats keep_outputs =
     (let lats = (case lats of None \<Rightarrow> ins | Some l \<Rightarrow> l) in
      ebind (latch_sizes (imap self) (zip ins lats) []) (\<lambda>lm.
      ebind (lmapcat_get (imap self) ins) (\<lambda>in_bits.
      ebind (lmapcat_get (omap self) outs) (\<lambda>out_bits.
      ebind (lmapcat_get lm lats) (\<lambda>latch_bits.
      ebind (aig_feedback (aig self) in_bits out_bits None (Some latch_bits) keep_outputs) (\<lambda>g.
      ebind (rebundle_aig g) (\<lambda>circ.
      case initials of
        None \<Rightarrow> Inr circ
      | Some vals \<Rightarrow>
          ebind (latch2init_words circ) (\<lambda>l2init.
          if lats = [] then Inr circ else Inl TypeError))))))))"

section \<open>The first word-circuit module (\<^verbatim>\<open>aigerbv/aigbv.py\<close>)\<close>

text \<open>
  In this module a bundle map \<^verbatim>\<open>BV_MAP\<close> is a frozen set of pairs of a word name and the tuple
  of its bit names; it is kept as a list of such pairs. Its definitions carry the prefix
  \<open>aigerbv\<close>.
\<close>

type_synonym BV_MAP = "(string \<times> string list) list"

text \<open>
  \<^verbatim>\<open>_blast\<close>: \<^verbatim>\<open>fn.merge\<close> of one dict \<^verbatim>\<open>dict(zip(names, bvname2vals[bvname]))\<close> per word; a
  later dict overrides an earlier one, a missing word name is a \<^verbatim>\<open>KeyError\<close>, and the merge
  of no dict at all is \<^verbatim>\<open>None\<close>.
\<close>

fun aigerbv_blast_dicts :: "(string \<rightharpoonup> 'v list) \<Rightarrow> BV_MAP \<Rightarrow> error + (string \<rightharpoonup> 'v)" where
  "aigerbv_blast_dicts bvname2vals [] = Inr Map.empty"
| "aigerbv_blast_dicts bvname2vals ((bvname, names) # rest) =
     (case bvname2vals bvname of
        None \<Rightarrow> Inl UnknownSignal
      | Some vals \<Rightarrow>
          ebind (aigerbv_blast_dicts bvname2vals rest) (\<lambda>d.
          Inr (map_of (zip names vals) ++ d)))"

definition aigerbv_blast :: "(string \<rightharpoonup> 'v list) \<Rightarrow> BV_MAP \<Rightarrow> error + (string \<rightharpoonup> 'v) option" where
  "aigerbv_blast bvname2vals name_map =
     (if name_map = [] then Inr None
      else ebind (aigerbv_blast_dicts bvname2vals name_map) (\<lambda>d. Inr (Some d)))"


definition aigerbv_unblast ::
  "(string \<rightharpoonup> 'v) option \<Rightarrow> BV_MAP \<Rightarrow> error + (string \<times> 'v list) list" where
  "aigerbv_unblast name2vals name_map =
     (if name_map = [] then Inr [] else Inl (NameError ''collect''))"

text \<open>
  The round trip \<^verbatim>\<open>_unblast(_blast(v, m), m)\<close>. On the empty map \<^verbatim>\<open>_blast\<close> gives \<^verbatim>\<open>None\<close>, which
  \<^verbatim>\<open>_unblast\<close> never touches.
\<close>

definition aigerbv_round_trip :: "BV_MAP \<Rightarrow> (string \<rightharpoonup> 'v list) \<Rightarrow> error + (string \<times> 'v list) list" where
  "aigerbv_round_trip m v =
     ebind (aigerbv_blast v m) (\<lambda>name2vals. aigerbv_unblast name2vals m)"

section \<open>Evaluation and primitive circuits of the engine\<close>

text \<open>
  \<^verbatim>\<open>aig(inputs, latches)\<close>: every output node and every next-state node is evaluated under
  the values of the inputs and of the latches (the initial values when no latch values are
  given). A value that is missing is an error of the engine.
\<close>

fun eval_node :: "(string \<rightharpoonup> bool) \<Rightarrow> (string \<rightharpoonup> bool) \<Rightarrow> node \<Rightarrow> bool option" where
  "eval_node inp lat ConstFalse = Some False"
| "eval_node inp lat (Input n) = inp n"
| "eval_node inp lat (LatchIn n) = lat n"
| "eval_node inp lat (AndGate a b) =
     (case eval_node inp lat a of
        None \<Rightarrow> None
      | Some x \<Rightarrow> (case eval_node inp lat b of None \<Rightarrow> None | Some y \<Rightarrow> Some (x \<and> y)))"
| "eval_node inp lat (Inverter a) = map_option Not (eval_node inp lat a)"

fun eval_all :: "(string \<rightharpoonup> bool) \<Rightarrow> (string \<rightharpoonup> bool) \<Rightarrow> (string \<times> node) list \<Rightarrow> error + (string \<times> bool) list" where
  "eval_all inp lat [] = Inr []"
| "eval_all inp lat ((n, d) # rest) =
     (case eval_node inp lat d of
        None \<Rightarrow> Inl EngineError
      | Some b \<Rightarrow> ebind (eval_all inp lat rest) (\<lambda>vals. Inr ((n, b) # vals)))"

definition aig_call ::
  "AIG \<Rightarrow> (string \<rightharpoonup> bool) \<Rightarrow> (string \<rightharpoonup> bool) option \<Rightarrow>
     error + (string \<times> bool) list \<times> (string \<times> bool) list" where
  "aig_call g inp lats =
     (let lat = (case lats of None \<Rightarrow> map_of (latch2init g) | Some l \<Rightarrow> l) in
      if \<not> list_all (\<lambda>n. inp n \<noteq> None) (aig_inputs g) then Inl EngineError
      else
        ebind (eval_all inp lat (node_map g)) (\<lambda>out_vals.
        ebind (eval_all inp lat (latch_map g)) (\<lambda>latch_vals.
        Inr (out_vals, latch_vals))))"

text \<open>
  \<^verbatim>\<open>common.source\<close>, \<^verbatim>\<open>common.sink\<close> and \<^verbatim>\<open>common.bit_flipper\<close> of the engine: constant
  outputs, inputs without outputs, and one inverter per pair of names.
\<close>

definition aig_source :: "(string \<times> bool) list \<Rightarrow> AIG" where
  "aig_source outs = comb [] (map (\<lambda>(n, b). (n, const_node b)) outs)"

definition aig_sink :: "string list \<Rightarrow> AIG" where
  "aig_sink ins = comb ins []"

definition bit_flipper :: "string list \<Rightarrow> string list \<Rightarrow> error + AIG" where
  "bit_flipper ins outs =
     (if length outs \<noteq> length ins then Inl EngineError
      else Inr (comb (remdups ins) (map (\<lambda>(i, out). (out, Inverter (Input i))) (zip ins outs))))"

section \<open>The adder and the subtractor (\<^verbatim>\<open>aigerbv/aigbv.py\<close>)\<close>

record aigerbv_AIGBV =
  bv_aig :: AIG
  input_map :: BV_MAP
  output_map :: BV_MAP
  bv_latch_map :: BV_MAP

definition aigerbv_inputs :: "aigerbv_AIGBV \<Rightarrow> string set" where
  "aigerbv_inputs c = set (map fst (input_map c))"

definition aigerbv_outputs :: "aigerbv_AIGBV \<Rightarrow> string set" where
  "aigerbv_outputs c = set (map fst (output_map c))"

definition aigerbv_latches :: "aigerbv_AIGBV \<Rightarrow> string set" where
  "aigerbv_latches c = set (map fst (bv_latch_map c))"

text \<open>\<^verbatim>\<open>AIGBV.__rshift__\<close> of this module: the maps are sets of pairs, joined by set union.\<close>

definition aigerbv_rshift :: "aigerbv_AIGBV \<Rightarrow> aigerbv_AIGBV \<Rightarrow> error + aigerbv_AIGBV" where
  "aigerbv_rshift self other =
     (let interface = aigerbv_outputs self \<inter> aigerbv_inputs other in
      if aigerbv_latches self \<inter> aigerbv_latches other \<noteq> {} then Inl AssertionError
      else if (aigerbv_outputs self - interface) \<inter> aigerbv_outputs other \<noteq> {} then Inl AssertionError
      else
        let input_map2 = filter (\<lambda>kv. fst kv \<notin> interface) (input_map other);
            output_map2 = filter (\<lambda>kv. fst kv \<notin> interface) (output_map self)
        in
          ebind (seq_compose (bv_aig self) (bv_aig other)) (\<lambda>g.
          Inr \<lparr> bv_aig = g,
                input_map = remdups (input_map self @ input_map2),
                output_map = remdups (output_map2 @ output_map other),
                bv_latch_map = remdups (bv_latch_map self @ bv_latch_map other) \<rparr>))"

text \<open>\<^verbatim>\<open>bitwise_negate\<close> of this module.\<close>

definition aigerbv_bitwise_negate :: "nat \<Rightarrow> string \<Rightarrow> string \<Rightarrow> error + aigerbv_AIGBV" where
  "aigerbv_bitwise_negate wordlen inp out =
     (let ins = named_indexes wordlen inp; outs = named_indexes wordlen out in
      ebind (bit_flipper ins outs) (\<lambda>g.
      Inr \<lparr> bv_aig = g, input_map = [(inp, ins)], output_map = [(out, outs)],
            bv_latch_map = [] \<rparr>))"

text \<open>
  \<^verbatim>\<open>_full_adder\<close>: the circuit that the parser reads from the fixed text
  \<^verbatim>\<open>aag 10 3 0 2 7\<close>, with inputs 2, 4, 6, outputs 18 and 21, and the AND gates
  \<^verbatim>\<open>8 4 2\<close>, \<^verbatim>\<open>10 5 3\<close>, \<^verbatim>\<open>12 11 9\<close>, \<^verbatim>\<open>14 12 6\<close>, \<^verbatim>\<open>16 13 7\<close>, \<^verbatim>\<open>18 17 15\<close>, \<^verbatim>\<open>20 15 9\<close>; an odd
  literal is the inverted gate of the even literal below it.
\<close>

definition full_adder :: "string \<Rightarrow> string \<Rightarrow> string \<Rightarrow> string \<Rightarrow> string \<Rightarrow> AIG" where
  "full_adder x y carry_in result carry_out =
     (let n2 = Input x; n4 = Input y; n6 = Input carry_in;
          n8 = AndGate n4 n2;
          n10 = AndGate (Inverter n4) (Inverter n2);
          n12 = AndGate (Inverter n10) (Inverter n8);
          n14 = AndGate n12 n6;
          n16 = AndGate (Inverter n12) (Inverter n6);
          n18 = AndGate (Inverter n16) (Inverter n14);
          n20 = AndGate (Inverter n14) (Inverter n8)
      in comb (remdups [x, y, carry_in]) [(result, n18), (carry_out, Inverter n20)])"

text \<open>
  \<^verbatim>\<open>adder\<close>. The bit names are built from the literal roots \<^verbatim>\<open>'left'\<close>, \<^verbatim>\<open>'right'\<close> and
  \<^verbatim>\<open>'output'\<close>, as the source does; the word names of the maps are the parameters.
\<close>

fun adder_loop :: "AIG \<Rightarrow> string \<Rightarrow> (string \<times> string \<times> string) list \<Rightarrow> error + AIG" where
  "adder_loop adder_aig carry_name [] = Inr adder_aig"
| "adder_loop adder_aig carry_name ((lname, rname, oname) # rest) =
     ebind (seq_compose adder_aig (full_adder lname rname carry_name oname carry_name)) (\<lambda>g.
     adder_loop g carry_name rest)"

definition aigerbv_adder :: "nat \<Rightarrow> string \<Rightarrow> string \<Rightarrow> string \<Rightarrow> bool \<Rightarrow> error + aigerbv_AIGBV" where
  "aigerbv_adder wordlen out left right has_carry =
     (let carry_name = out @ ''_carry'' in
      if \<not> (left \<noteq> carry_name \<and> right \<noteq> carry_name) then Inl AssertionError
      else
        let lefts = named_indexes wordlen ''left'';
            rights = named_indexes wordlen ''right'';
            outs = named_indexes wordlen ''output''
        in
          ebind (adder_loop (aig_source [(carry_name, False)]) carry_name
                   (zip lefts (zip rights outs))) (\<lambda>adder_aig.
          ebind (if \<not> has_carry then seq_compose adder_aig (aig_sink [out @ ''_carry''])
                 else Inr adder_aig) (\<lambda>adder_aig.
          Inr \<lparr> bv_aig = adder_aig,
                input_map = remdups [(left, lefts), (right, rights)],
                output_map = [(out, outs)],
                bv_latch_map = [] \<rparr>)))"

text \<open>
  \<^verbatim>\<open>subtractor\<close> calls \<^verbatim>\<open>negater\<close>, a name that the module neither defines nor imports. The
  binding of that name is the parameter \<open>negater\<close>; in the module as it stands the name is
  unbound and the call raises \<open>NameError\<close>.
\<close>

definition aigerbv_subtractor ::
  "(nat \<Rightarrow> string \<Rightarrow> string \<Rightarrow> error + aigerbv_AIGBV) \<Rightarrow>
     nat \<Rightarrow> string \<Rightarrow> string \<Rightarrow> string \<Rightarrow> bool \<Rightarrow> error + aigerbv_AIGBV" where
  "aigerbv_subtractor negater wordlen out left right has_carry =
     ebind (negater wordlen right right) (\<lambda>neg.
     ebind (aigerbv_adder wordlen out left right has_carry) (\<lambda>add.
     aigerbv_rshift neg add))"

definition unbound_negater :: "nat \<Rightarrow> string \<Rightarrow> string \<Rightarrow> error + aigerbv_AIGBV" where
  "unbound_negater wordlen inp out = Inl (NameError ''negater'')"

text \<open>The bits of a natural number, lowest first.\<close>

definition bits_of :: "nat \<Rightarrow> nat \<Rightarrow> bool list" where
  "bits_of wordlen a = map (bit a) [0..<wordlen]"

text \<open>
  \<^verbatim>\<open>int.to_bytes(length, byteorder, signed=signed)\<close>: the \<open>length\<close> bytes of the value, in
  two's complement when \<open>signed\<close>; a value that does not fit is an \<open>OverflowError\<close>.
\<close>

definition to_bytes :: "int \<Rightarrow> nat \<Rightarrow> string \<Rightarrow> bool \<Rightarrow> error + nat list" where
  "to_bytes v len byteorder sg =
     (let fits = (if sg then (if len = 0 then v = 0
                              else - (2 ^ (8 * len - 1)) \<le> v \<and> v < 2 ^ (8 * len - 1))
                  else 0 \<le> v \<and> v < 2 ^ (8 * len));
          little = map (\<lambda>i. nat ((v div 256 ^ i) mod 256)) [0..<len]
      in if byteorder \<noteq> ''little'' \<and> byteorder \<noteq> ''big'' then Inl ValueError
         else if \<not> fits then Inl OverflowError
         else Inr (if byteorder = ''little'' then little else rev little))"

text \<open>
  \<^verbatim>\<open>source\<close> of this module: the values paired with the bit names are the \<^emph>\<open>bytes\<close> of
  \<^verbatim>\<open>value.to_bytes(wordlen, ...)\<close>, one byte per bit name; the engine's source takes each value
  by its truth value. The input map of the result names the same bits as its output map.
\<close>

definition aigerbv_source :: "nat \<Rightarrow> int \<Rightarrow> string \<Rightarrow> bool \<Rightarrow> string \<Rightarrow> error + aigerbv_AIGBV" where
  "aigerbv_source wordlen val name sg byteorder =
     (if \<not> 2 ^ wordlen > val then Inl AssertionError
      else
        ebind (to_bytes val wordlen byteorder sg) (\<lambda>bits.
        let names = named_indexes wordlen name in
        Inr \<lparr> bv_aig = aig_source (map (\<lambda>(n, byte). (n, byte \<noteq> 0)) (zip names bits)),
              input_map = [(name, names)],
              output_map = [(name, names)],
              bv_latch_map = [] \<rparr>))"

text \<open>\<^verbatim>\<open>AIGBV.__or__\<close> of this module.\<close>

definition aigerbv_or :: "aigerbv_AIGBV \<Rightarrow> aigerbv_AIGBV \<Rightarrow> error + aigerbv_AIGBV" where
  "aigerbv_or self other =
     (if aigerbv_inputs self \<inter> aigerbv_inputs other \<noteq> {} then Inl AssertionError
      else if aigerbv_outputs self \<inter> aigerbv_outputs other \<noteq> {} then Inl AssertionError
      else if aigerbv_latches self \<inter> aigerbv_latches other \<noteq> {} then Inl AssertionError
      else
        ebind (par_compose (bv_aig self) (bv_aig other)) (\<lambda>g.
        Inr \<lparr> bv_aig = g,
              input_map = remdups (input_map self @ input_map other),
              output_map = remdups (output_map self @ output_map other),
              bv_latch_map = remdups (bv_latch_map self @ bv_latch_map other) \<rparr>))"

text \<open>
  \<^verbatim>\<open>AIGBV.__call__\<close> of this module: the word values are blasted along the input and the
  latch map, the bit-level circuit is called, and the results go through \<^verbatim>\<open>_unblast\<close>. Where
  \<^verbatim>\<open>_blast\<close> gives \<^verbatim>\<open>None\<close> (an empty map), the engine sees no values.
\<close>

definition aigerbv_call ::
  "aigerbv_AIGBV \<Rightarrow> (string \<rightharpoonup> bool list) \<Rightarrow> (string \<rightharpoonup> bool list) option \<Rightarrow>
     error + (string \<times> bool list) list \<times> (string \<times> bool list) list" where
  "aigerbv_call self inps lats =
     (let lats = (case lats of None \<Rightarrow> Map.empty | Some l \<Rightarrow> l) in
      ebind (aigerbv_blast inps (input_map self)) (\<lambda>in_bits.
      ebind (aigerbv_blast lats (bv_latch_map self)) (\<lambda>latch_bits.
      ebind (aig_call (bv_aig self) (case in_bits of None \<Rightarrow> Map.empty | Some i \<Rightarrow> i) latch_bits)
        (\<lambda>(out_vals, latch_vals).
      ebind (aigerbv_unblast (Some (map_of out_vals)) (output_map self)) (\<lambda>outs.
      ebind (aigerbv_unblast (Some (map_of latch_vals)) (bv_latch_map self)) (\<lambda>latch_outs.
      Inr (outs, latch_outs)))))))"

section \<open>The ripple-carry chain, written out\<close>

text \<open>
  The sum and the carry node of the full adder as functions of the three operand nodes, and
  the circuit that the loop of \<open>aigerbv_adder\<close> has built after \<open>k\<close> full adders: the carry
  node of position \<open>k\<close> under the carry name, and one sum node per position below \<open>k\<close>.
\<close>

definition fa_xor :: "node \<Rightarrow> node \<Rightarrow> node" where
  "fa_xor x y = AndGate (Inverter (AndGate (Inverter y) (Inverter x))) (Inverter (AndGate y x))"

definition fa_sum :: "node \<Rightarrow> node \<Rightarrow> node \<Rightarrow> node" where
  "fa_sum x y c =
     AndGate (Inverter (AndGate (Inverter (fa_xor x y)) (Inverter c)))
             (Inverter (AndGate (fa_xor x y) c))"

definition fa_carry :: "node \<Rightarrow> node \<Rightarrow> node \<Rightarrow> node" where
  "fa_carry x y c =
     Inverter (AndGate (Inverter (AndGate (fa_xor x y) c)) (Inverter (AndGate y x)))"

fun carry_node :: "nat \<Rightarrow> node" where
  "carry_node 0 = ConstFalse"
| "carry_node (Suc k) =
     fa_carry (Input (indexed ''left'' k)) (Input (indexed ''right'' k)) (carry_node k)"

definition sum_node :: "nat \<Rightarrow> node" where
  "sum_node k = fa_sum (Input (indexed ''left'' k)) (Input (indexed ''right'' k)) (carry_node k)"

definition ripple :: "nat \<Rightarrow> string \<Rightarrow> AIG" where
  "ripple k carry_name =
     comb (concat (map (\<lambda>j. [indexed ''left'' j, indexed ''right'' j]) [0..<k]))
          (map (\<lambda>j. (indexed ''output'' j, sum_node j)) [0..<k] @ [(carry_name, carry_node k)])"

text \<open>The carry into position \<open>k\<close> of the addition of two natural numbers.\<close>

definition carry_in :: "nat \<Rightarrow> nat \<Rightarrow> nat \<Rightarrow> bool" where
  "carry_in a b k \<longleftrightarrow> 2 ^ k \<le> a mod 2 ^ k + b mod 2 ^ k"

text \<open>The chain without its last carry, after the sink has taken the carry away.\<close>

definition chain :: "nat \<Rightarrow> AIG" where
  "chain n = comb (concat (map (\<lambda>j. [indexed ''left'' j, indexed ''right'' j]) [0..<n]))
               (map (\<lambda>j. (indexed ''output'' j, sum_node j)) [0..<n])"

section \<open>Evaluation of word circuits and expressions\<close>

text \<open>
  \<^verbatim>\<open>AIGBV.__call__\<close> of \<^verbatim>\<open>aiger_bv/aigbv.py\<close>: the word values of the inputs (and of the
  latches, when given) are blasted, the bit-level circuit is called, and the bit values of
  the outputs and of the latches are unblasted.
\<close>

definition aigbv_call ::
  "AIGBV \<Rightarrow> (string \<times> bool list) list \<Rightarrow> (string \<times> bool list) list option \<Rightarrow>
     error + (string \<times> bool list) list \<times> (string \<times> bool list) list" where
  "aigbv_call self inps lats =
     ebind (bm_blast (imap self) inps) (\<lambda>in_bits.
     ebind (case lats of
              None \<Rightarrow> Inr None
            | Some l \<Rightarrow> ebind (bm_blast (lmap self) l) (\<lambda>bits. Inr (Some (map_of bits))))
       (\<lambda>latch_bits.
     ebind (aig_call (aig self) (map_of in_bits) latch_bits) (\<lambda>(out2val, latch2val).
     ebind (bm_unblast (omap self) (map_of out2val)) (\<lambda>outs.
     ebind (bm_unblast (lmap self) (map_of latch2val)) (\<lambda>louts.
     Inr (outs, louts))))))"

text \<open>
  \<^verbatim>\<open>UnsignedBVExpr.__call__\<close>: \<^verbatim>\<open>self.aigbv(inputs)[0][self.output]\<close>. On a wrapped expression
  the call of the field gives the value of the inner expression, \<^verbatim>\<open>[0]\<close> takes its first
  bit, and \<^verbatim>\<open>self.output\<close> reads \<^verbatim>\<open>outputs\<close> of an expression object.
\<close>

fun expr_call :: "expr \<Rightarrow> (string \<times> bool list) list \<Rightarrow> error + bool list" where
  "expr_call (BVExpr sg c) inps =
     ebind (aigbv_call c inps None) (\<lambda>(outs, louts).
     ebind (expr_output (BVExpr sg c)) (\<lambda>out.
     case out of
       None \<Rightarrow> Inl UnknownSignal
     | Some name \<Rightarrow> (case map_of outs name of None \<Rightarrow> Inl UnknownSignal | Some v \<Rightarrow> Inr v)))"
| "expr_call (Wrapped sg e) inps =
     ebind (expr_call e inps) (\<lambda>v.
     case v of [] \<Rightarrow> Inl IndexError | b # bs \<Rightarrow> Inl AttributeError)"

section \<open>The name generator\<close>

text \<open>
  \<^verbatim>\<open>cmn._fresh()\<close> is process-wide state that hands out a new name at every call. The state
  is a counter, threaded through every function that draws names; \<open>fresh_name k\<close> stands for
  the \<open>k\<close>-th name. A computation that draws names takes the counter and returns an error or
  its result with the new counter.
\<close>

type_synonym 'a gen = "nat \<Rightarrow> error + ('a \<times> nat)"

definition fresh_name :: "nat \<Rightarrow> string" where
  "fresh_name k = ''_fresh_'' @ str_nat k"

definition fresh :: "string gen" where
  "fresh k = Inr (fresh_name k, Suc k)"

definition gbind :: "'a gen \<Rightarrow> ('a \<Rightarrow> 'b gen) \<Rightarrow> 'b gen" where
  "gbind m f k = (case m k of Inl e \<Rightarrow> Inl e | Inr (x, k') \<Rightarrow> f x k')"

definition lift :: "error + 'a \<Rightarrow> 'a gen" where
  "lift r k = (case r of Inl e \<Rightarrow> Inl e | Inr x \<Rightarrow> Inr (x, k))"

definition index_in :: "'a list \<Rightarrow> 'a \<Rightarrow> nat" where
  "index_in xs x = length (takeWhile (\<lambda>y. y \<noteq> x) xs)"

text \<open>
  \<^verbatim>\<open>AIGBV.__or__\<close> with the generator: one name per shared input for \<^verbatim>\<open>relabels1\<close>, then one
  per shared input for \<^verbatim>\<open>relabels2\<close>.
\<close>

definition aigbv_or_gen :: "AIGBV \<Rightarrow> AIGBV \<Rightarrow> AIGBV gen" where
  "aigbv_or_gen self other k =
     (let shared = filter (\<lambda>n. n \<in> inputs other) (remdups (map fst (imap self)));
          m = length shared
      in case aigbv_or self other
                (\<lambda>n. fresh_name (k + index_in shared n))
                (\<lambda>n. fresh_name (k + m + index_in shared n)) of
           Inl e \<Rightarrow> Inl e
         | Inr c \<Rightarrow> Inr (c, k + 2 * m))"

section \<open>The expression algebra (\<^verbatim>\<open>aiger_bv/expr.py\<close>)\<close>

text \<open>What \<^verbatim>\<open>same_circ\<close> returns: a word circuit, or (for \<^verbatim>\<open>lambda x: x\<close>) the expression itself.\<close>

datatype payload = Circuit AIGBV | Expression expr

fun make_expr :: "bool \<Rightarrow> payload \<Rightarrow> expr" where
  "make_expr sg (Circuit c) = BVExpr sg c"
| "make_expr sg (Expression e) = Wrapped sg e"



definition same_expr :: "expr \<Rightarrow> payload gen" where
  "same_expr e = lift (Inr (Expression e))"

text \<open>\<^verbatim>\<open>with_output\<close> and \<^verbatim>\<open>_fresh_output\<close>.\<close>

fun with_output :: "expr \<Rightarrow> string \<Rightarrow> error + expr" where
  "with_output (BVExpr sg c) val =
     (case omap c of
        [] \<Rightarrow> Inl TypeError
      | (out, n) # rest \<Rightarrow> ebind (getitem c ''o'' [(out, val)]) (\<lambda>c'. Inr (BVExpr sg c')))"
| "with_output (Wrapped sg e) val = Inl AttributeError"

definition fresh_output :: "expr \<Rightarrow> expr gen" where
  "fresh_output e = gbind fresh (\<lambda>val. lift (with_output e val))"

text \<open>\<^verbatim>\<open>_unary_gate\<close>; the gate takes the word length, the input name and the output name.\<close>

definition unary_gate :: "(nat \<Rightarrow> string \<Rightarrow> string \<Rightarrow> AIGBV) \<Rightarrow> expr \<Rightarrow> expr gen" where
  "unary_gate gate e =
     gbind (lift (expr_size e)) (\<lambda>sz.
     gbind (lift (expr_output e)) (\<lambda>out.
     gbind fresh (\<lambda>name.
     case (sz, out) of
       (Some n, Some i) \<Rightarrow> lift (then_gate e (gate n i name))
     | _ \<Rightarrow> lift (Inl TypeError))))"

text \<open>
  \<^verbatim>\<open>_binary_gate\<close> on two expressions; the gate takes the word length, the names of the left
  and the right operand and the output name. The class \<^verbatim>\<open>AIGBV\<close> is declared with
  \<^verbatim>\<open>eq=False\<close>, so \<^verbatim>\<open>expr1.aigbv == expr2.aigbv\<close> compares the identity of the two objects,
  which no value determines: it is the parameter \<open>same_object\<close>.
\<close>

fun expr_aigbv :: "expr \<Rightarrow> error + AIGBV" where
  "expr_aigbv (BVExpr sg c) = Inr c"
| "expr_aigbv (Wrapped sg e) = Inl AttributeError"

definition binary_gate ::
  "(nat \<Rightarrow> string \<Rightarrow> string \<Rightarrow> string \<Rightarrow> AIGBV) \<Rightarrow> expr \<Rightarrow> expr \<Rightarrow>
     (expr \<Rightarrow> payload gen) option \<Rightarrow> bool \<Rightarrow> expr gen" where
  "binary_gate gate expr1 expr2 same_circ same_object =
     gbind (lift (expr_size expr1)) (\<lambda>size1.
     gbind (lift (expr_size expr2)) (\<lambda>size2.
     if size1 \<noteq> size2 then lift (Inl AssertionError)
     else
       case (if same_object then same_circ else None) of
         Some f \<Rightarrow> gbind (f expr1) (\<lambda>p. lift (Inr (make_expr (is_signed expr1) p)))
       | None \<Rightarrow>
           gbind (lift (expr_aigbv expr1)) (\<lambda>c1.
           gbind (lift (expr_aigbv expr2)) (\<lambda>c2.
           gbind (if aig_outputs (aig c1) \<inter> aig_outputs (aig c2) \<noteq> {}
                  then fresh_output expr2 else lift (Inr expr2)) (\<lambda>expr2.
           gbind (lift (expr_aigbv expr2)) (\<lambda>c2.
           gbind (aigbv_or_gen c1 c2) (\<lambda>circ3.
           gbind fresh (\<lambda>name.
           gbind (lift (expr_output expr1)) (\<lambda>left.
           gbind (lift (expr_output expr2)) (\<lambda>right.
           case (size1, left, right) of
             (Some n, Some l, Some r) \<Rightarrow>
               gbind (lift (rshift circ3 (gate n l r name))) (\<lambda>c.
               lift (Inr (BVExpr (is_signed expr1) c)))
           | _ \<Rightarrow> lift (Inl TypeError)))))))))))"

text \<open>
  The operators. The gates \<^verbatim>\<open>cmn.add_gate\<close>, \<^verbatim>\<open>cmn.subtract_gate\<close>, \<^verbatim>\<open>cmn.bitwise_xor\<close> and
  \<^verbatim>\<open>cmn.ne_gate\<close> of the absent \<^verbatim>\<open>common.py\<close> are parameters of the operators that use them.
\<close>

definition expr_invert :: "expr \<Rightarrow> expr gen" where
  "expr_invert self = unary_gate bitwise_negate self"

definition expr_add ::
  "(nat \<Rightarrow> string \<Rightarrow> string \<Rightarrow> string \<Rightarrow> AIGBV) \<Rightarrow> expr \<Rightarrow> expr \<Rightarrow> bool \<Rightarrow> expr gen" where
  "expr_add add_gate self other same_object =
     binary_gate add_gate self other (Some same_expr) same_object"


definition expr_and :: "expr \<Rightarrow> expr \<Rightarrow> bool \<Rightarrow> expr gen" where
  "expr_and self other same_object =
     binary_gate bitwise_and self other (Some same_expr) same_object"

definition expr_or :: "expr \<Rightarrow> expr \<Rightarrow> bool \<Rightarrow> expr gen" where
  "expr_or self other same_object =
     binary_gate bitwise_or self other (Some same_expr) same_object"



text \<open>
  \<^verbatim>\<open>ite\<close>. The operands of its three binary operators are never the same object: the
  repeated test, its complement and the two disjunctions are built inside \<open>ite\<close>.
\<close>

definition ite :: "expr \<Rightarrow> expr \<Rightarrow> expr \<Rightarrow> expr gen" where
  "ite test expr_true expr_false =
     gbind (lift (expr_size test)) (\<lambda>tsize.
     if tsize \<noteq> Some 1 then lift (Inl AssertionError)
     else
       gbind (lift (expr_size expr_true)) (\<lambda>size1.
       gbind (lift (expr_size expr_false)) (\<lambda>size2.
       if size1 \<noteq> size2 then lift (Inl AssertionError)
       else
         case size1 of
           None \<Rightarrow> lift (Inl TypeError)
         | Some n \<Rightarrow>
             gbind (gbind fresh (\<lambda>name. lift (expr_repeat test n name))) (\<lambda>test.
             gbind (expr_invert test) (\<lambda>not_test.
             gbind (expr_or not_test expr_true False) (\<lambda>l.
             gbind (expr_or test expr_false False) (\<lambda>r.
             expr_and l r False)))))))"

text \<open>\<^verbatim>\<open>atom\<close>: a constant, a named input, or (for \<^verbatim>\<open>None\<close>) an input with a generated name.\<close>

datatype val = IntVal int | StrVal string | NoneVal

definition atom :: "nat \<Rightarrow> val \<Rightarrow> bool \<Rightarrow> expr gen" where
  "atom wordlen v sg =
     gbind fresh (\<lambda>out.
     gbind (case v of NoneVal \<Rightarrow> gbind fresh (\<lambda>n. lift (Inr (StrVal n))) | _ \<Rightarrow> lift (Inr v)) (\<lambda>v.
     case v of
       StrVal name \<Rightarrow> lift (Inr (BVExpr sg (identity_gate wordlen name out)))
     | IntVal k \<Rightarrow> lift (Inr (BVExpr sg (source_gate wordlen k out)))
     | NoneVal \<Rightarrow> lift (Inl TypeError)))"

text \<open>A run of a computation that draws names, from the initial state of the generator.\<close>

definition run :: "'a gen \<Rightarrow> error + 'a" where
  "run m = (case m 0 of Inl e \<Rightarrow> Inl e | Inr (x, k) \<Rightarrow> Inr x)"


text \<open>The bit values of a word-value mapping, every word along a bundle of its own length.\<close>

definition blasted :: "(string \<times> bool list) list \<Rightarrow> (string \<times> bool) list" where
  "blasted vals = concat (map (\<lambda>(k, v). zip (bundle_bits k (length v)) v) vals)"

(* PROPERTIES *)

section \<open>Basic facts\<close>

lemma ebind_simps [simp]:
  "ebind (Inl e) f = Inl e"
  "ebind (Inr x) f = f x"
  by (simp_all add: ebind_def)

lemma keys_append: "keys (m1 @ m2) = keys m1 \<union> keys m2"
  by (simp add: keys_def)



lemma map_of_keys: "map_of m k = None \<longleftrightarrow> k \<notin> keys m"
  by (simp add: keys_def map_of_eq_None_iff)



lemma bm_add_overlap: "keys m1 \<inter> keys m2 \<noteq> {} \<Longrightarrow> bm_add m1 m2 = Inl NameCollision"
  by (simp add: bm_add_def)

lemmas name_simps = indexed_def named_indexes_def str_nat.simps digit_char_def

lemma repeat_gate_simps:
  "imap (repeat_gate n i out) = [(i, 1)]" "omap (repeat_gate n i out) = [(out, n)]"
  "lmap (repeat_gate n i out) = []"
  "aig_inputs (aig (repeat_gate n i out)) = [indexed i 0]"
  "latch_map (aig (repeat_gate n i out)) = []"
  by (simp_all add: repeat_gate_def comb_def)

lemma getitem_inputs:
  assumes "getitem self ''i'' rel = Inr s'"
  shows "imap s' = bm_relabel (imap self) (map_of rel)"
    and "set (map snd rel) \<inter> keys (imap self) = {}"
proof -
  from assms have a: "set (map snd rel) \<inter> keys (imap self) = {}"
    unfolding getitem_def Let_def by (auto split: if_splits simp del: set_map)
  then show "set (map snd rel) \<inter> keys (imap self) = {}" .
  from assms a show "imap s' = bm_relabel (imap self) (map_of rel)"
    unfolding getitem_def Let_def
    by (auto simp: ebind_def split: if_splits sum.splits simp del: set_map)
qed

lemma keys_bm_relabel: "keys (bm_relabel m r) = rename r ` keys m"
  by (force simp: keys_def bm_relabel_def rename_keys_def)

lemma relabelled_away:
  assumes "orig \<in> set names"
    and "set (map snd (map (\<lambda>n. (n, f n)) names)) \<inter> keys m = {}"
    and "set names \<subseteq> keys m"
  shows "orig \<notin> keys (bm_relabel m (map_of (map (\<lambda>n. (n, f n)) names)))"
proof
  let ?r = "map_of (map (\<lambda>n. (n, f n)) names)"
  have r: "?r k = (if k \<in> set names then Some (f k) else None)" for k
    by (induction names) auto
  assume "orig \<in> keys (bm_relabel m ?r)"
  then obtain k where k: "k \<in> keys m" "rename ?r k = orig"
    by (auto simp: keys_bm_relabel)
  show False
  proof (cases "k \<in> set names")
    case True
    with k r have "orig = f k" by (simp add: rename_def)
    with True have "orig \<in> set (map snd (map (\<lambda>n. (n, f n)) names))" by force
    moreover from assms(1,3) have "orig \<in> keys m" by blast
    ultimately show False using assms(2) by blast
  next
    case False
    with k r have "orig = k" by (simp add: rename_def)
    with False assms(1) show False by simp
  qed
qed

section \<open>Facts about bit names\<close>

lemma digit_char_inj: "i < 10 \<Longrightarrow> j < 10 \<Longrightarrow> digit_char i = digit_char j \<Longrightarrow> i = j"
proof -
  have d: "distinct ''0123456789''" by simp
  assume "i < 10" "j < 10" "digit_char i = digit_char j"
  then show "i = j"
    using d nth_eq_iff_index_eq [of "''0123456789''" i j]
    by (simp add: digit_char_def)
qed

lemma str_nat_nonempty: "str_nat n \<noteq> []"
  by (subst str_nat.simps) simp

lemma str_nat_small: "n < 10 \<Longrightarrow> str_nat n = [digit_char n]"
  by (subst str_nat.simps) simp

lemma str_nat_big: "\<not> n < 10 \<Longrightarrow> str_nat n = str_nat (n div 10) @ [digit_char (n mod 10)]"
  by (subst str_nat.simps) simp

lemma str_nat_inj: "str_nat i = str_nat j \<Longrightarrow> i = j"
proof (induction i arbitrary: j rule: str_nat.induct)
  case (1 n)
  show ?case
  proof (cases "n < 10")
    case True
    note n = this
    show ?thesis
    proof (cases "j < 10")
      case True
      with n "1.prems" have "digit_char n = digit_char j"
        by (simp add: str_nat_small)
      with n True show ?thesis by (intro digit_char_inj)
    next
      case False
      with n "1.prems" have "[digit_char n] = str_nat (j div 10) @ [digit_char (j mod 10)]"
        by (simp add: str_nat_small str_nat_big)
      with str_nat_nonempty [of "j div 10"] show ?thesis
        by (simp add: Cons_eq_append_conv)
    qed
  next
    case False
    note n = this
    show ?thesis
    proof (cases "j < 10")
      case True
      with n "1.prems" have "str_nat (n div 10) @ [digit_char (n mod 10)] = [digit_char j]"
        by (simp add: str_nat_small str_nat_big)
      with str_nat_nonempty [of "n div 10"] show ?thesis
        by (simp add: append_eq_Cons_conv)
    next
      case False
      with n "1.prems" have e: "str_nat (n div 10) = str_nat (j div 10)"
        and d: "digit_char (n mod 10) = digit_char (j mod 10)"
        by (simp_all add: str_nat_big)
      from "1.IH" [OF n e] have "n div 10 = j div 10" .
      moreover from d have "n mod 10 = j mod 10" by (intro digit_char_inj) simp_all
      ultimately show ?thesis by (metis div_mult_mod_eq)
    qed
  qed
qed

lemma indexed_inj: "indexed r i = indexed r j \<Longrightarrow> i = j"
  by (auto simp: indexed_def dest: str_nat_inj)

lemma indexed_roots:
  "indexed ''left'' i \<noteq> indexed ''right'' j"
  "indexed ''left'' i \<noteq> indexed ''output'' j"
  "indexed ''right'' i \<noteq> indexed ''output'' j"
  "indexed ''right'' i \<noteq> indexed ''left'' j"
  "indexed ''output'' i \<noteq> indexed ''left'' j"
  "indexed ''output'' i \<noteq> indexed ''right'' j"
  by (simp_all add: indexed_def)

lemma carry_not_indexed: "out @ ''_carry'' \<noteq> indexed r i" "indexed r i \<noteq> out @ ''_carry''"
proof -
  have a: "last (out @ ''_carry'') = CHR ''y''" by simp
  have b: "last (indexed r i) = CHR '']''" by (simp add: indexed_def)
  show "out @ ''_carry'' \<noteq> indexed r i"
  proof
    assume "out @ ''_carry'' = indexed r i"
    then have "last (out @ ''_carry'') = last (indexed r i)" by (rule arg_cong)
    with a b show False by (simp del: last_append)
  qed
  then show "indexed r i \<noteq> out @ ''_carry''" by (rule not_sym)
qed

section \<open>Facts about the ripple-carry chain\<close>

lemma full_adder_nodes:
  "distinct [x, y, ci] \<Longrightarrow> full_adder x y ci res co =
     comb [x, y, ci] [(res, fa_sum (Input x) (Input y) (Input ci)),
                      (co, fa_carry (Input x) (Input y) (Input ci))]"
  by (simp add: full_adder_def Let_def fa_sum_def fa_carry_def fa_xor_def)

lemma modify_fa:
  "modify_leafs si sl (fa_sum x y c) =
     fa_sum (modify_leafs si sl x) (modify_leafs si sl y) (modify_leafs si sl c)"
  "modify_leafs si sl (fa_carry x y c) =
     fa_carry (modify_leafs si sl x) (modify_leafs si sl y) (modify_leafs si sl c)"
  by (simp_all add: fa_sum_def fa_carry_def fa_xor_def)

lemma ripple_simps:
  "aig_inputs (ripple k C) = concat (map (\<lambda>j. [indexed ''left'' j, indexed ''right'' j]) [0..<k])"
  "node_map (ripple k C) =
     map (\<lambda>j. (indexed ''output'' j, sum_node j)) [0..<k] @ [(C, carry_node k)]"
  "latch_map (ripple k C) = []" "latch2init (ripple k C) = []"
  by (simp_all add: ripple_def comb_def)

lemma ripple_outputs:
  "aig_outputs (ripple k C) = insert C (indexed ''output'' ` {0..<k})"
  by (auto simp: aig_outputs_def ripple_simps)

lemma seq_compose_eq:
  assumes "aig_outputs c1 \<inter> set (aig_inputs c2) = I"
    and "(aig_outputs c1 - I) \<inter> aig_outputs c2 = {}"
    and "aig_latches c1 \<inter> aig_latches c2 = {}"
  shows "seq_compose c1 c2 =
     Inr \<lparr> aig_inputs = aig_inputs c1 @
             filter (\<lambda>n. n \<notin> I \<and> n \<notin> set (aig_inputs c1)) (aig_inputs c2),
           node_map = filter (\<lambda>(n, d). n \<notin> I) (node_map c1) @
             map_nodes (modify_leafs (map_of (node_map c1) |` I) Map.empty) (node_map c2),
           latch_map = latch_map c1 @
             map_nodes (modify_leafs (map_of (node_map c1) |` I) Map.empty) (latch_map c2),
           latch2init = latch2init c1 @ latch2init c2 \<rparr>"
  using assms by (simp add: seq_compose_def Let_def)

lemma ripple_step:
  assumes C: "C = out @ ''_carry''"
  shows "seq_compose (ripple k C) (full_adder (indexed ''left'' k) (indexed ''right'' k) C
           (indexed ''output'' k) C) = Inr (ripple (Suc k) C)"
proof -
  let ?L = "indexed ''left'' k" and ?R = "indexed ''right'' k" and ?O = "indexed ''output'' k"
  let ?g = "ripple k C"
  have cn: "C \<noteq> indexed r i" "indexed r i \<noteq> C" for r i
    by (simp_all add: C carry_not_indexed)
  have d: "distinct [?L, ?R, C]"
    by (simp add: indexed_roots cn)
  let ?fa = "full_adder ?L ?R C ?O C"
  note fa = full_adder_nodes [OF d, of ?O C]
  have ins: "aig_inputs ?fa = [?L, ?R, C]" by (simp add: fa comb_def)
  have nm: "node_map ?fa = [(?O, fa_sum (Input ?L) (Input ?R) (Input C)),
                      (C, fa_carry (Input ?L) (Input ?R) (Input C))]"
    by (simp add: fa comb_def)
  have lm: "latch_map ?fa = []" "latch2init ?fa = []" by (simp_all add: fa comb_def)
  have I: "aig_outputs ?g \<inter> set (aig_inputs ?fa) = {C}"
    by (auto simp: ripple_outputs ins indexed_roots cn)
  have O: "aig_outputs ?fa = {?O, C}" by (auto simp: nm aig_outputs_def)
  have c1: "(aig_outputs ?g - {C}) \<inter> aig_outputs ?fa = {}"
    by (auto simp: ripple_outputs O dest: indexed_inj)
  have c2: "aig_latches ?g \<inter> aig_latches ?fa = {}"
    by (simp add: aig_latches_def lm)
  have notin: "?L \<notin> set (aig_inputs ?g)" "?R \<notin> set (aig_inputs ?g)"
    by (auto simp: ripple_simps indexed_roots dest: indexed_inj)
  have f_in: "filter (\<lambda>n. n \<notin> {C} \<and> n \<notin> set (aig_inputs ?g)) (aig_inputs ?fa) = [?L, ?R]"
    using notin d by (simp add: ins)
  have filt: "filter (\<lambda>(n, d). n \<notin> {C}) (node_map ?g) =
      map (\<lambda>j. (indexed ''output'' j, sum_node j)) [0..<k]"
    by (simp add: ripple_simps filter_map comp_def cn)
  let ?w = "map_of (node_map ?g) |` {C}"
  have look: "?w C = Some (carry_node k)"
  proof -
    have "map_of (map (\<lambda>j. (indexed ''output'' j, sum_node j)) [0..<k]) C = None"
      by (auto simp: map_of_eq_None_iff cn)
    then show ?thesis by (simp add: ripple_simps map_add_def)
  qed
  have lookL: "?w ?L = None" "?w ?R = None"
    by (simp_all add: restrict_map_def cn)
  have wired: "map_nodes (modify_leafs ?w Map.empty) (node_map ?fa) =
      [(?O, sum_node k), (C, carry_node (Suc k))]"
    by (simp add: nm map_nodes_def modify_fa look lookL sum_node_def)
  have "seq_compose ?g ?fa =
     Inr \<lparr> aig_inputs = aig_inputs ?g @ [?L, ?R],
           node_map = map (\<lambda>j. (indexed ''output'' j, sum_node j)) [0..<k] @
              [(?O, sum_node k), (C, carry_node (Suc k))],
           latch_map = [], latch2init = [] \<rparr>"
    unfolding seq_compose_eq [OF I c1 c2] f_in filt wired
    by (simp add: lm ripple_simps map_nodes_def)
  also have "\<dots> = Inr (ripple (Suc k) C)"
    by (simp add: ripple_def comb_def)
  finally show ?thesis .
qed

lemma adder_loop_ripple:
  assumes C: "C = out @ ''_carry''"
  shows "adder_loop (ripple k C) C
           (map (\<lambda>i. (indexed ''left'' i, indexed ''right'' i, indexed ''output'' i)) [k..<k + m])
         = Inr (ripple (k + m) C)"
proof (induction m arbitrary: k)
  case 0
  then show ?case by simp
next
  case (Suc m)
  have "[k..<k + Suc m] = k # [Suc k..<Suc k + m]"
    by (simp add: upt_conv_Cons)
  then show ?case
    using Suc [of "Suc k"] by (simp add: ripple_step [OF C])
qed

lemma zip_named:
  "zip (named_indexes n ''left'') (zip (named_indexes n ''right'') (named_indexes n ''output''))
     = map (\<lambda>i. (indexed ''left'' i, indexed ''right'' i, indexed ''output'' i)) [0..<n]"
  by (simp add: named_indexes_def zip_map_map map_zip_map [symmetric] zip_same_conv_map)

lemma eval_fa:
  assumes "eval_node inp lat x = Some p" "eval_node inp lat y = Some q" "eval_node inp lat c = Some r"
  shows "eval_node inp lat (fa_sum x y c) = Some ((p \<noteq> q) \<noteq> r)"
    and "eval_node inp lat (fa_carry x y c) = Some ((p \<and> q) \<or> ((p \<noteq> q) \<and> r))"
  using assms by (auto simp: fa_sum_def fa_carry_def fa_xor_def)

lemma carry_in_0: "\<not> carry_in a b 0"
  by (simp add: carry_in_def)

lemma mod_Suc_bit: "(a::nat) mod 2 ^ Suc k = a mod 2 ^ k + 2 ^ k * of_bool (bit a k)"
  using take_bit_Suc_from_most [of k a] by (simp add: take_bit_eq_mod)

lemma carry_in_Suc:
  "carry_in a b (Suc k) \<longleftrightarrow> (bit a k \<and> bit b k) \<or> ((bit a k \<noteq> bit b k) \<and> carry_in a b k)"
proof -
  define p :: nat where "p = 2 ^ k"
  define x y where "x = a mod p" and "y = b mod p"
  have l: "x < p" "y < p" by (simp_all add: x_def y_def p_def)
  have "carry_in a b (Suc k) \<longleftrightarrow>
      2 * p \<le> (x + p * of_bool (bit a k)) + (y + p * of_bool (bit b k))"
    unfolding carry_in_def mod_Suc_bit [of a k] mod_Suc_bit [of b k]
    by (simp add: p_def x_def y_def)
  moreover have "carry_in a b k \<longleftrightarrow> p \<le> x + y"
    by (simp add: carry_in_def p_def x_def y_def)
  ultimately show ?thesis
    using l by (cases "bit a k"; cases "bit b k") auto
qed

lemma bit_add_carry:
  "bit (a + b) k \<longleftrightarrow> ((bit a k \<noteq> bit b k) \<noteq> carry_in a b k)" for a b :: nat
proof -
  define p :: nat where "p = 2 ^ k"
  define x y where "x = a mod p" and "y = b mod p"
  have l: "x < p" "y < p" by (simp_all add: x_def y_def p_def)
  have a: "a = p * (a div p) + x" and b: "b = p * (b div p) + y"
    by (simp_all add: x_def y_def)
  have s: "a + b = (x + y) + (a div p + b div p) * p"
    by (subst a, subst b) (simp add: algebra_simps)
  have c: "carry_in a b k \<longleftrightarrow> p \<le> x + y"
    by (simp add: carry_in_def p_def x_def y_def)
  have "(x + y) div p = of_bool (p \<le> x + y)"
  proof (cases "p \<le> x + y")
    case True
    with l have "(x + y) div p = 1" by (intro div_nat_eqI) simp_all
    with True show ?thesis by simp
  next
    case False
    then show ?thesis by simp
  qed
  then have d: "(a + b) div p = a div p + b div p + of_bool (carry_in a b k)"
    using l by (subst s) (simp add: c)
  have "bit (a + b) k \<longleftrightarrow> odd ((a + b) div p)" by (simp add: bit_iff_odd p_def)
  also have "\<dots> \<longleftrightarrow> ((odd (a div p) \<noteq> odd (b div p)) \<noteq> carry_in a b k)"
    unfolding d by auto
  finally show ?thesis by (simp add: bit_iff_odd p_def)
qed

lemma eval_chain:
  fixes a b :: nat
  assumes inp: "\<And>j. j < n \<Longrightarrow> inp (indexed ''left'' j) = Some (bit a j) \<and>
                              inp (indexed ''right'' j) = Some (bit b j)"
  shows "k \<le> n \<Longrightarrow> eval_node inp lat (carry_node k) = Some (carry_in a b k)"
proof (induction k)
  case 0
  then show ?case by (simp add: carry_in_0)
next
  case (Suc k)
  then have c: "eval_node inp lat (carry_node k) = Some (carry_in a b k)" by simp
  from Suc.prems inp [of k] have
    "eval_node inp lat (Input (indexed ''left'' k)) = Some (bit a k)"
    "eval_node inp lat (Input (indexed ''right'' k)) = Some (bit b k)" by simp_all
  from eval_fa(2) [OF this c] show ?case by (simp add: carry_in_Suc)
qed

lemma eval_sum:
  fixes a b :: nat
  assumes inp: "\<And>j. j < n \<Longrightarrow> inp (indexed ''left'' j) = Some (bit a j) \<and>
                              inp (indexed ''right'' j) = Some (bit b j)"
    and "k < n"
  shows "eval_node inp lat (sum_node k) = Some (bit (a + b) k)"
proof -
  from assms have c: "eval_node inp lat (carry_node k) = Some (carry_in a b k)"
    by (intro eval_chain [where n = n]) simp_all
  from assms(2) inp [of k] have
    "eval_node inp lat (Input (indexed ''left'' k)) = Some (bit a k)"
    "eval_node inp lat (Input (indexed ''right'' k)) = Some (bit b k)" by simp_all
  from eval_fa(1) [OF this c] show ?thesis by (simp add: sum_node_def bit_add_carry)
qed

lemma eval_all_map:
  "(\<And>x. x \<in> set xs \<Longrightarrow> eval_node inp lat (d x) = Some (v x)) \<Longrightarrow>
   eval_all inp lat (map (\<lambda>x. (f x, d x)) xs) = Inr (map (\<lambda>x. (f x, v x)) xs)"
  by (induction xs) simp_all

lemma eval_all_append:
  "eval_all inp lat xs = Inr us \<Longrightarrow> eval_all inp lat ys = Inr vs \<Longrightarrow>
   eval_all inp lat (xs @ ys) = Inr (us @ vs)"
  by (induction xs arbitrary: us) (auto simp: ebind_def split: option.splits sum.splits)

lemma map_of_inj:
  "j \<in> set xs \<Longrightarrow> inj_on f (set xs) \<Longrightarrow>
   map_of (map (\<lambda>i. (f i, v i)) xs @ rest) (f j) = Some (v j)"
proof (induction xs)
  case Nil
  then show ?case by simp
next
  case (Cons x xs)
  show ?case
  proof (cases "f j = f x")
    case True
    with Cons.prems have "j = x" by (meson inj_onD list.set_intros(1))
    then show ?thesis by simp
  next
    case False
    with Cons.prems have "j \<in> set xs" "inj_on f (set xs)" by auto
    from Cons.IH [OF this] False show ?thesis by simp
  qed
qed

lemma map_of_indexed:
  "j < n \<Longrightarrow> map_of (map (\<lambda>i. (indexed r i, v i)) [0..<n] @ rest) (indexed r j) = Some (v j)"
  by (intro map_of_inj) (auto intro!: inj_onI dest: indexed_inj)


lemma zip_indexed:
  "j < n \<Longrightarrow> map_of (zip (named_indexes n r) (bits_of n a)) (indexed r j) = Some (bit a j)"
proof -
  have "zip (named_indexes n r) (bits_of n a) = map (\<lambda>i. (indexed r i, bit a i)) [0..<n] @ []"
    by (simp add: named_indexes_def bits_of_def zip_map_map zip_same_conv_map)
  then show "j < n \<Longrightarrow> ?thesis"
    using map_of_indexed [of j n r "bit a" "[]"] by simp
qed

lemma zip_indexed_other:
  assumes "\<And>i. indexed r' i \<noteq> indexed r j"
  shows "map_of (zip (named_indexes n r') vs) (indexed r j) = None"
proof -
  have "indexed r j \<notin> fst ` set (zip (named_indexes n r') vs)"
  proof
    assume "indexed r j \<in> fst ` set (zip (named_indexes n r') vs)"
    then obtain y where "(indexed r j, y) \<in> set (zip (named_indexes n r') vs)" by auto
    then have "indexed r j \<in> set (named_indexes n r')" by (rule set_zip_leftD)
    then obtain i where "indexed r j = indexed r' i" by (auto simp: named_indexes_def)
    with assms [of i] show False by simp
  qed
  then show ?thesis by (simp add: map_of_eq_None_iff)
qed

lemma sink_step:
  assumes C: "C = out @ ''_carry''"
  shows "seq_compose (ripple n C) (aig_sink [C]) = Inr (chain n)"
proof -
  have cn: "C \<noteq> indexed r i" "indexed r i \<noteq> C" for r i
    by (simp_all add: C carry_not_indexed)
  have I: "aig_outputs (ripple n C) \<inter> set (aig_inputs (aig_sink [C])) = {C}"
    by (auto simp: ripple_outputs aig_sink_def comb_def)
  have c1: "(aig_outputs (ripple n C) - {C}) \<inter> aig_outputs (aig_sink [C]) = {}"
    by (simp add: aig_sink_def comb_def aig_outputs_def)
  have c2: "aig_latches (ripple n C) \<inter> aig_latches (aig_sink [C]) = {}"
    by (simp add: aig_sink_def comb_def aig_latches_def)
  have filt: "filter (\<lambda>(n, d). n \<notin> {C}) (node_map (ripple n C)) =
      map (\<lambda>j. (indexed ''output'' j, sum_node j)) [0..<n]"
    by (simp add: ripple_simps filter_map comp_def cn)
  show ?thesis
    unfolding seq_compose_eq [OF I c1 c2] filt
    by (simp add: aig_sink_def comb_def chain_def ripple_simps map_nodes_def)
qed

lemma adder_built:
  assumes "left \<noteq> out @ ''_carry''" "right \<noteq> out @ ''_carry''" "left \<noteq> right"
  shows "aigerbv_adder n out left right has_carry =
     Inr \<lparr> bv_aig = (if has_carry then ripple n (out @ ''_carry'') else chain n),
           input_map = [(left, named_indexes n ''left''), (right, named_indexes n ''right'')],
           output_map = [(out, named_indexes n ''output'')],
           bv_latch_map = [] \<rparr>"
proof -
  have src: "aig_source [(out @ ''_carry'', False)] = ripple 0 (out @ ''_carry'')"
    by (simp add: aig_source_def ripple_def const_node_def)
  have loop: "adder_loop (aig_source [(out @ ''_carry'', False)]) (out @ ''_carry'')
      (zip (named_indexes n ''left'') (zip (named_indexes n ''right'') (named_indexes n ''output'')))
      = Inr (ripple n (out @ ''_carry''))"
    unfolding src zip_named
    using adder_loop_ripple [of "out @ ''_carry''" out 0 n] by simp
  show ?thesis
    using assms by (simp add: aigerbv_adder_def Let_def loop sink_step)
qed

lemma blast_inputs_eq:
  "left \<noteq> right \<Longrightarrow>
   aigerbv_blast [left \<mapsto> va, right \<mapsto> vb]
     [(left, named_indexes n ''left''), (right, named_indexes n ''right'')] =
   Inr (Some (map_of (zip (named_indexes n ''left'') va) ++
              map_of (zip (named_indexes n ''right'') vb)))"
  by (simp add: aigerbv_blast_def)

lemma blast_inputs_val:
  fixes a b :: nat
  assumes j: "j < n"
  shows "(map_of (zip (named_indexes n ''left'') (bits_of n a)) ++
          map_of (zip (named_indexes n ''right'') (bits_of n b))) (indexed ''left'' j) = Some (bit a j)"
    and "(map_of (zip (named_indexes n ''left'') (bits_of n a)) ++
          map_of (zip (named_indexes n ''right'') (bits_of n b))) (indexed ''right'' j) = Some (bit b j)"
proof -
  have "map_of (zip (named_indexes n ''right'') (bits_of n b)) (indexed ''left'' j) = None"
    by (intro zip_indexed_other) (simp add: indexed_roots)
  with zip_indexed [OF j, of "''left''" a] zip_indexed [OF j, of "''right''" b]
  show "(map_of (zip (named_indexes n ''left'') (bits_of n a)) ++
          map_of (zip (named_indexes n ''right'') (bits_of n b))) (indexed ''left'' j) = Some (bit a j)"
    and "(map_of (zip (named_indexes n ''left'') (bits_of n a)) ++
          map_of (zip (named_indexes n ''right'') (bits_of n b))) (indexed ''right'' j) = Some (bit b j)"
    by (simp_all add: map_add_def)
qed

lemma inputs_defined:
  assumes "\<And>j. j < n \<Longrightarrow> inp (indexed ''left'' j) = Some (p j) \<and> inp (indexed ''right'' j) = Some (q j)"
  shows "list_all (\<lambda>x. inp x \<noteq> None)
           (concat (map (\<lambda>j. [indexed ''left'' j, indexed ''right'' j]) [0..<n]))"
  using assms by (auto simp: list_all_iff)

lemma bits_of_mod: "bits_of n ((x::nat) mod 2 ^ n) = map (bit x) [0..<n]"
  by (simp add: bits_of_def bit_take_bit_iff flip: take_bit_eq_mod)


section \<open>Collision rejection\<close>

text \<open>
  C7. Sequential composition of two word circuits that both declare an output \<open>z\<close> which is
  not in the interface (the outputs of the first that are inputs of the second) fails with
  \<open>InterfaceConflict\<close>, and relabelling a signal of kind input, output or latch to a name
  already among the names of that kind fails with \<open>NameCollision\<close>; in neither case is a
  circuit returned.
\<close>

theorem collision_rejection:
  "(z \<in> outputs A \<and> z \<in> outputs B \<and> z \<notin> inputs B \<longrightarrow> rshift A B = Inl InterfaceConflict) \<and>
   (kind \<in> {''i'', ''o'', ''l''} \<and> (old, new) \<in> set relabels \<and>
      new \<in> (if kind = ''i'' then inputs A else if kind = ''o'' then outputs A else latches A)
      \<longrightarrow> getitem A kind relabels = Inl NameCollision)"
proof (intro conjI impI)
  assume h: "z \<in> outputs A \<and> z \<in> outputs B \<and> z \<notin> inputs B"
  then have "z \<in> (outputs A - outputs A \<inter> inputs B) \<inter> outputs B" by blast
  then have "(outputs A - outputs A \<inter> inputs B) \<inter> outputs B \<noteq> {}" by blast
  then show "rshift A B = Inl InterfaceConflict"
    by (simp add: rshift_def Let_def)
next
  assume h: "kind \<in> {''i'', ''o'', ''l''} \<and> (old, new) \<in> set relabels \<and>
      new \<in> (if kind = ''i'' then inputs A else if kind = ''o'' then outputs A else latches A)"
  let ?bmap1 = "if kind = ''i'' then imap A else if kind = ''o'' then omap A else lmap A"
  from h have "new \<in> set (map snd relabels)" by force
  moreover from h have "new \<in> keys ?bmap1"
    by (auto simp: inputs_def outputs_def latches_def split: if_splits)
  ultimately have "set (map snd relabels) \<inter> keys ?bmap1 \<noteq> {}" by blast
  with h show "getitem A kind relabels = Inl NameCollision"
    unfolding getitem_def Let_def by (simp del: set_map)
qed

theorem collision_rejection_witness:
  "rshift (wires [] [''y'', ''z'']) (wires [''y''] [''z'']) = Inl InterfaceConflict \<and>
   getitem (wires [] [''y'', ''z'']) ''o'' [(''y'', ''z'')] = Inl NameCollision"
  using collision_rejection [of "''z''" "wires [] [''y'', ''z'']" "wires [''y''] [''z'']"
      "''o''" "''y''" "''z''" "[(''y'', ''z'')]"]
  by (simp add: wires_def outputs_def inputs_def keys_def)

section \<open>Sequential composition\<close>




text \<open>
  In \<^verbatim>\<open>aigerbv/aigbv.py\<close> the maps are sets of pairs joined by set union, which never
  fails: there the stated precondition and the composition of the bit-level circuits are
  enough.
\<close>

lemma aigerbv_rshift_maps:
  assumes "aigerbv_latches A \<inter> aigerbv_latches B = {}"
    and "(aigerbv_outputs A - aigerbv_outputs A \<inter> aigerbv_inputs B) \<inter> aigerbv_outputs B = {}"
    and "seq_compose (bv_aig A) (bv_aig B) = Inr g"
  shows "\<exists>C. aigerbv_rshift A B = Inr C \<and> bv_aig C = g \<and>
      set (input_map C) = set (input_map A) \<union>
        {kv \<in> set (input_map B). fst kv \<notin> aigerbv_outputs A \<inter> aigerbv_inputs B} \<and>
      set (output_map C) = set (output_map B) \<union>
        {kv \<in> set (output_map A). fst kv \<notin> aigerbv_outputs A \<inter> aigerbv_inputs B} \<and>
      set (bv_latch_map C) = set (bv_latch_map A) \<union> set (bv_latch_map B)"
  using assms by (auto simp: aigerbv_rshift_def Let_def)

section \<open>Parallel composition\<close>

text \<open>Two circuits that share an input name are never composed in parallel.\<close>

lemma or_shared_inputs_error:
  assumes "inputs A \<inter> inputs B \<noteq> {}"
  shows "\<exists>err. aigbv_or A B fresh1 fresh2 = Inl err"
proof -
  define shared where "shared = filter (\<lambda>n. n \<in> inputs B) (remdups (map fst (imap A)))"
  from assms have ne: "shared \<noteq> []"
    by (auto simp: shared_def inputs_def keys_def filter_empty_conv)
  then obtain orig rest where sh: "shared = orig # rest" by (cases shared) auto
  have sub: "set shared \<subseteq> keys (imap A)" by (auto simp: shared_def keys_def)
  have loop: "\<exists>err. tee_loop s' fresh1 fresh2 shared circ = Inl err"
    if "getitem A ''i'' (map (\<lambda>n. (n, fresh1 n)) shared) = Inr s'" for s' circ
  proof -
    from getitem_inputs [OF that] sub sh
    have "orig \<notin> keys (imap s')"
      using relabelled_away [of orig shared fresh1 "imap A"] by simp
    then have "map_of (imap s') orig = None" by (simp add: map_of_keys)
    then have "bm_getitem (imap s') orig = Inl UnknownSignal"
      by (simp add: bm_getitem_def)
    then show ?thesis by (simp add: sh)
  qed
  show ?thesis
  proof (cases "getitem A ''i'' (map (\<lambda>n. (n, fresh1 n)) shared)")
    case (Inl e)
    with ne show ?thesis
      by (simp add: aigbv_or_def Let_def shared_def [symmetric])
  next
    case (Inr s')
    from loop [OF Inr] ne Inr show ?thesis
      by (auto simp: aigbv_or_def Let_def shared_def [symmetric] ebind_def
          split: sum.splits prod.splits)
  qed
qed


text \<open>
  C2. The claim is that \<open>A | B\<close> on circuits with shared input names relabels the shared
  inputs on both sides, places the circuits side by side and puts a tee gate in front, so
  that the result has every shared input once. The code attempts this and never gets there:
  the loop that builds the tee gates looks the original name up in the input map of the
  relabelled \<open>self\<close>, where it is no longer a key. Whenever \<open>A\<close> and \<open>B\<close> share an input name,
  whatever names the generator hands out, \<open>A | B\<close> fails.
\<close>

theorem or_shared_inputs_fails:
  assumes "inputs A \<inter> inputs B \<noteq> {}"
  shows "\<exists>err. aigbv_or A B fresh1 fresh2 = Inl err"
  using assms by (rule or_shared_inputs_error)

theorem or_shared_inputs_fails_witness:
  "inputs (wires [''x''] [''a'']) \<inter> inputs (wires [''x''] [''b'']) \<noteq> {} \<and>
   (\<exists>err. aigbv_or (wires [''x''] [''a'']) (wires [''x''] [''b''])
      (\<lambda>n. ''f1'' @ n) (\<lambda>n. ''f2'' @ n) = Inl err)"
proof -
  have h: "inputs (wires [''x''] [''a'']) \<inter> inputs (wires [''x''] [''b'']) \<noteq> {}"
    by (simp add: wires_def inputs_def keys_def)
  from or_shared_inputs_fails [OF h] h show ?thesis by blast
qed

text \<open>The run on two one-bit circuits that both have the input \<open>x\<close>.\<close>

lemma or_shared_input_run:
  "aigbv_or (wires [''x''] [''a'']) (wires [''x''] [''b'']) (\<lambda>n. ''f1'' @ n) (\<lambda>n. ''f2'' @ n)
     = Inl UnknownSignal"
  by (simp add: aigbv_or_def wires_def inputs_def outputs_def latches_def keys_def Let_def
      getitem_def relabels_aig_def bm_getitem_def bm_relabel_def rename_keys_def rename_def
      bundle_bits_def aig_relabel_def map_nodes_def par_compose_def aig_outputs_def
      aig_latches_def bm_add_def name_simps)

section \<open>Repetition of a one-bit expression\<close>

text \<open>
  C10. \<open>repeat\<close> is defined on one-bit expressions only: on an expression whose size is not 1
  (or cannot be read) it fails and builds nothing, and on a well-formed expression whose
  sole output has one bit it returns an expression of size \<open>n\<close>, the number of repetitions.
\<close>

theorem repeat_one_bit_only:
 "(expr_size e \<noteq> Inr (Some 1) \<longrightarrow> (\<exists>err. expr_repeat e n name = Inl err)) \<and>
  (omap c = [(out, 1)] \<and> aig_outputs (aig c) = {indexed out 0} \<longrightarrow>
     (\<exists>e'. expr_repeat (BVExpr sg c) n name = Inr e' \<and> expr_size e' = Inr (Some n)))"
proof (intro conjI impI)
  assume "expr_size e \<noteq> Inr (Some 1)"
  then show "\<exists>err. expr_repeat e n name = Inl err"
    by (cases "expr_size e") (auto simp: expr_repeat_def)
next
  assume h: "omap c = [(out, 1)] \<and> aig_outputs (aig c) = {indexed out 0}"
  let ?r = "repeat_gate n out name"
  have s: "\<exists>g. seq_compose (aig c) (aig ?r) = Inr g"
    using h by (simp add: seq_compose_def Let_def repeat_gate_simps aig_latches_def)
  then obtain g where g: "seq_compose (aig c) (aig ?r) = Inr g" ..
  have "rshift c ?r = Inr \<lparr> aig = g, imap = imap c, omap = [(name, n)], lmap = lmap c \<rparr>"
    using h g
    by (simp add: rshift_def Let_def repeat_gate_simps outputs_def inputs_def latches_def
        keys_def bm_add_def omit_def)
  with h show "\<exists>e'. expr_repeat (BVExpr sg c) n name = Inr e' \<and> expr_size e' = Inr (Some n)"
    by (simp add: expr_repeat_def)
qed

theorem repeat_one_bit_only_witness:
  "(\<exists>err. expr_repeat (BVExpr False (source_gate 8 5 ''x'')) 4 ''r'' = Inl err) \<and>
   (\<exists>e'. expr_repeat (BVExpr False (source_gate 1 1 ''x'')) 4 ''r'' = Inr e' \<and>
      expr_size e' = Inr (Some 4))"
  using repeat_one_bit_only [of "BVExpr False (source_gate 8 5 ''x'')" 4 "''r''"
      "source_gate 1 1 ''x''" "''x''" False]
  by (simp add: source_gate_def comb_def aig_outputs_def)

section \<open>Feedback\<close>

text \<open>
  C6. The claim is that \<open>feedback\<close> turns every named input into a new latch fed from the
  paired output, that an explicit initial value becomes the initial value of its latch, and
  that the other latches keep the engine's default. The code never hands the initial values
  to the engine, and the block that handles them subscripts the result of \<^verbatim>\<open>dict.update\<close>,
  which is \<^verbatim>\<open>None\<close>: whenever initial values are supplied and there is at least one latch,
  \<open>feedback\<close> fails and returns no circuit.
\<close>

theorem feedback_initials_fail:
  assumes "initials = Some vals" and "(case lats of None \<Rightarrow> ins | Some l \<Rightarrow> l) \<noteq> []"
  shows "\<exists>err. feedback self ins outs initials lats keep_outputs = Inl err"
  using assms
  by (auto simp: feedback_def Let_def ebind_def split: sum.splits)

theorem feedback_initials_fail_witness:
  "\<exists>err. feedback (identity_gate 1 ''x'' ''y'') [''x''] [''y''] (Some [Some [True]]) None False
     = Inl err"
  using feedback_initials_fail [where initials = "Some [Some [True]]" and vals = "[Some [True]]"
      and lats = None and ins = "[''x'']"]
  by simp

text \<open>
  The run on the one-bit identity circuit, with the initial value true for the latch, and
  the same call without initial values, where the latch gets the engine's default.
\<close>

lemma feedback_initials_run:
  "feedback (identity_gate 1 ''x'' ''y'') [''x''] [''y''] (Some [Some [True]]) None False
     = Inl TypeError"
  by (simp add: feedback_def identity_gate_def comb_def bm_getitem_def bundle_bits_def
      aig_feedback_def aig_outputs_def map_nodes_def rename_keys_def rename_def
      rebundle_aig_def rebundle_names_def unpack_name_def is_digit_def int_of_digits_def
      digit_val_def to_size_def latch2init_words_def Let_def name_simps)

lemma feedback_default_run:
  "feedback (identity_gate 1 ''x'' ''y'') [''x''] [''y''] None None False =
     Inr \<lparr> aig = \<lparr> aig_inputs = [], node_map = [],
                     latch_map = [(''x[0]'', LatchIn ''x[0]'')],
                     latch2init = [(''x[0]'', False)] \<rparr>,
           imap = [], omap = [], lmap = [(''x'', 1)] \<rparr>"
  by (simp add: feedback_def identity_gate_def comb_def bm_getitem_def bundle_bits_def
      aig_feedback_def aig_outputs_def map_nodes_def rename_keys_def rename_def
      rebundle_aig_def rebundle_names_def unpack_name_def is_digit_def int_of_digits_def
      digit_val_def to_size_def Let_def name_simps)

section \<open>Bundle round trip\<close>

text \<open>
  C3. The claim is that unblasting the blasted values of a word-value mapping gives the
  mapping back. In \<^verbatim>\<open>aigerbv/aigbv.py\<close> the function \<^verbatim>\<open>_unblast\<close> calls the undefined name
  \<^verbatim>\<open>collect\<close> in place of its local \<^verbatim>\<open>_collect\<close>: on every bundle map with at least one
  word the round trip raises and returns no mapping.
\<close>

theorem unblast_round_trip_fails:
  assumes "m \<noteq> []"
  shows "\<exists>err. aigerbv_round_trip m v = Inl err"
  using assms
  by (auto simp: aigerbv_round_trip_def aigerbv_blast_def aigerbv_unblast_def ebind_def
      split: sum.splits option.splits)

theorem unblast_round_trip_fails_witness:
  "\<exists>err. aigerbv_round_trip [(''x'', [''x[0]''])] [''x'' \<mapsto> [True]] = Inl err"
  using unblast_round_trip_fails [of "[(''x'', [''x[0]''])]" "[''x'' \<mapsto> [True]]"]
  by simp

text \<open>The run on the one-bit word \<open>x\<close> with the value true.\<close>

lemma unblast_round_trip_run:
  "aigerbv_round_trip [(''x'', [''x[0]''])] [''x'' \<mapsto> [True]] = Inl (NameError ''collect'')"
  by (simp add: aigerbv_round_trip_def aigerbv_blast_def aigerbv_unblast_def)

text \<open>On the empty bundle map nothing is called, and the round trip gives the empty mapping.\<close>

lemma unblast_round_trip_empty: "aigerbv_round_trip [] v = Inr []"
  by (simp add: aigerbv_round_trip_def aigerbv_blast_def aigerbv_unblast_def)

section \<open>Addition\<close>

text \<open>
  C5. The claim is that the adder, evaluated on constant sources \<open>a\<close> and \<open>b\<close>, yields
  \<open>(a + b) mod 2 ^ n\<close>, for instance 8 for \<open>n = 8\<close>, \<open>a = 5\<close>, \<open>b = 3\<close>. The code does not. The
  two sources are composed in parallel and then with the adder, under the word names
  \<^verbatim>\<open>'left'\<close> and \<^verbatim>\<open>'right'\<close>, the only ones for which the bit names of \<open>source\<close> meet the literal
  bit names of \<open>adder\<close>. The circuit is built; calling it raises \<open>NameError\<close> in \<^verbatim>\<open>_unblast\<close>
  when the two words are given, and \<open>KeyError\<close> in \<^verbatim>\<open>_blast\<close> when they are not (the input map
  of a source names its word). Called at the bit level, the circuit yields the bits of 2:
  \<open>source\<close> pairs the bit names with the bytes of \<^verbatim>\<open>to_bytes\<close>, so that each source is the
  constant 1.
\<close>

theorem adder_on_sources_diverges:
  "(case ebind (aigerbv_source 8 5 ''left'' True ''little'') (\<lambda>l.
         ebind (aigerbv_source 8 3 ''right'' True ''little'') (\<lambda>r.
         ebind (aigerbv_or l r) (\<lambda>srcs.
         ebind (aigerbv_adder 8 ''x+y'' ''left'' ''right'' False) (\<lambda>add.
         aigerbv_rshift srcs add)))) of
      Inl e \<Rightarrow> False
    | Inr c \<Rightarrow>
        aigerbv_call c [''left'' \<mapsto> bits_of 8 5, ''right'' \<mapsto> bits_of 8 3] None
          = Inl (NameError ''collect'') \<and>
        aigerbv_call c Map.empty None = Inl UnknownSignal \<and>
        aig_call (bv_aig c) Map.empty None
          = Inr (zip (named_indexes 8 ''output'') (bits_of 8 2), []) \<and>
        bits_of 8 2 \<noteq> bits_of 8 8)"
  by code_simp

text \<open>
  Whatever the circuit and the values, \<^verbatim>\<open>__call__\<close> of this module returns nothing as soon as
  the circuit has an output word.
\<close>

lemma aigerbv_call_fails:
  assumes "output_map c \<noteq> []"
  shows "\<exists>err. aigerbv_call c inps lats = Inl err"
  using assms
  by (auto simp: aigerbv_call_def aigerbv_unblast_def ebind_def Let_def
      split: sum.splits prod.splits)

text \<open>
  With the default word names \<^verbatim>\<open>'x'\<close> and \<^verbatim>\<open>'y'\<close> the bits of the sources are \<^verbatim>\<open>x[i]\<close> and
  \<^verbatim>\<open>y[i]\<close>, the inputs of the adder stay \<^verbatim>\<open>left[i]\<close> and \<^verbatim>\<open>right[i]\<close>, and nothing is wired: the
  bit-level circuit has no value for its inputs.
\<close>

lemma adder_on_default_sources:
  "(case ebind (aigerbv_source 8 5 ''x'' True ''little'') (\<lambda>l.
         ebind (aigerbv_source 8 3 ''y'' True ''little'') (\<lambda>r.
         ebind (aigerbv_or l r) (\<lambda>srcs.
         ebind (aigerbv_adder 8 ''x+y'' ''x'' ''y'' False) (\<lambda>add.
         aigerbv_rshift srcs add)))) of
      Inl e \<Rightarrow> False
    | Inr c \<Rightarrow>
        aigerbv_call c [''x'' \<mapsto> bits_of 8 5, ''y'' \<mapsto> bits_of 8 3] None = Inl EngineError \<and>
        aig_call (bv_aig c) Map.empty None = Inl EngineError)"
  by code_simp

text \<open>
  The chain itself is right. For every word length \<open>n\<close> and all \<open>a, b < 2 ^ n\<close>, the adder is
  built, and its bit-level circuit, called on the blasted bits of \<open>a\<close> and \<open>b\<close>, gives the bits
  of \<open>a + b\<close> at the \<open>n\<close> output names. With \<open>has_carry\<close> the circuit is the ripple-carry chain
  \<open>ripple\<close> of \<open>n\<close> full adders whose first carry is the constant false, and the carry name
  carries the carry out of the last position; without it the carry is discarded.
\<close>

lemma adder_chain_correct:
  fixes a b n :: nat
  assumes "left \<noteq> out @ ''_carry''" and "right \<noteq> out @ ''_carry''" and "left \<noteq> right"
    and "a < 2 ^ n" and "b < 2 ^ n"
  shows "(\<exists>c inp. aigerbv_adder n out left right False = Inr c \<and>
            aig_outputs (bv_aig c) = set (named_indexes n ''output'') \<and>
            aigerbv_blast [left \<mapsto> bits_of n a, right \<mapsto> bits_of n b] (input_map c)
              = Inr (Some inp) \<and>
            aig_call (bv_aig c) inp None
              = Inr (map (\<lambda>j. (indexed ''output'' j, bit (a + b) j)) [0..<n], [])) \<and>
         (\<exists>c inp. aigerbv_adder n out left right True = Inr c \<and>
            bv_aig c = ripple n (out @ ''_carry'') \<and>
            aigerbv_blast [left \<mapsto> bits_of n a, right \<mapsto> bits_of n b] (input_map c)
              = Inr (Some inp) \<and>
            aig_call (bv_aig c) inp None
              = Inr (map (\<lambda>j. (indexed ''output'' j, bit (a + b) j)) [0..<n] @
                     [(out @ ''_carry'', 2 ^ n \<le> a + b)], []))"
proof -
  let ?C = "out @ ''_carry''"
  let ?vals = "[left \<mapsto> bits_of n a, right \<mapsto> bits_of n b]"
  let ?im = "[(left, named_indexes n ''left''), (right, named_indexes n ''right'')]"
  define inp where "inp = map_of (zip (named_indexes n ''left'') (bits_of n a)) ++
                  map_of (zip (named_indexes n ''right'') (bits_of n b))"
  have bl: "aigerbv_blast ?vals ?im = Inr (Some inp)"
    unfolding inp_def using assms(3) by (rule blast_inputs_eq)
  have inp: "j < n \<Longrightarrow> inp (indexed ''left'' j) = Some (bit a j) \<and>
      inp (indexed ''right'' j) = Some (bit b j)" for j
    unfolding inp_def using blast_inputs_val [of j n a b] by simp
  have def: "list_all (\<lambda>x. inp x \<noteq> None)
           (concat (map (\<lambda>j. [indexed ''left'' j, indexed ''right'' j]) [0..<n]))"
    using inp by (rule inputs_defined)
  have sums: "eval_all inp lat (map (\<lambda>j. (indexed ''output'' j, sum_node j)) [0..<n]) =
      Inr (map (\<lambda>j. (indexed ''output'' j, bit (a + b) j)) [0..<n])" for lat
    by (intro eval_all_map eval_sum [where n = n]) (use inp in auto)
  have carry: "eval_node inp lat (carry_node n) = Some (2 ^ n \<le> a + b)" for lat
    using eval_chain [of n inp a b n lat] inp assms(4,5) by (simp add: carry_in_def)
  have call0: "aig_call (chain n) inp None =
      Inr (map (\<lambda>j. (indexed ''output'' j, bit (a + b) j)) [0..<n], [])"
    using def by (simp add: aig_call_def chain_def comb_def sums)
  have call1: "aig_call (ripple n ?C) inp None =
      Inr (map (\<lambda>j. (indexed ''output'' j, bit (a + b) j)) [0..<n] @ [(?C, 2 ^ n \<le> a + b)], [])"
  proof -
    have "eval_all inp lat [(?C, carry_node n)] = Inr [(?C, 2 ^ n \<le> a + b)]" for lat
      by (simp add: carry)
    from eval_all_append [OF sums this] def show ?thesis
      by (simp add: aig_call_def ripple_simps)
  qed
  have outs0: "aig_outputs (chain n) = set (named_indexes n ''output'')"
    by (auto simp: chain_def comb_def aig_outputs_def named_indexes_def)
  show ?thesis
    using bl call0 call1 outs0 adder_built [OF assms(1-3), of n False]
      adder_built [OF assms(1-3), of n True]
    by simp
qed

text \<open>The words 5 and 3 of eight bits: the chain gives the bits of 8.\<close>

lemma adder_chain_run:
  "\<exists>c inp. aigerbv_adder 8 ''x+y'' ''x'' ''y'' False = Inr c \<and>
     aigerbv_blast [''x'' \<mapsto> bits_of 8 5, ''y'' \<mapsto> bits_of 8 3] (input_map c) = Inr (Some inp) \<and>
     aig_call (bv_aig c) inp None
       = Inr (map (\<lambda>j. (indexed ''output'' j, bit (8::nat) j)) [0..<8], [])"
proof -
  have "''x'' \<noteq> ''x+y'' @ ''_carry''" "''y'' \<noteq> ''x+y'' @ ''_carry''" "''x'' \<noteq> ''y''"
    "(5::nat) < 2 ^ 8" "(3::nat) < 2 ^ 8" by simp_all
  from adder_chain_correct [OF this] show ?thesis by auto
qed

section \<open>Subtraction\<close>

text \<open>
  C1. The claim is that the subtractor yields \<open>(a - b) mod 2 ^ n\<close>, for instance 254 for
  \<open>n = 8\<close>, \<open>a = 3\<close>, \<open>b = 5\<close>. The code does not: \<open>subtractor\<close> calls the unbound name
  \<^verbatim>\<open>negater\<close> and raises \<open>NameError\<close> on every input. With the module's own negation gate
  \<open>bitwise_negate\<close> bound to that name (and the word names \<^verbatim>\<open>'left'\<close> and \<^verbatim>\<open>'right'\<close>, for which
  the bit names of the two gates meet), the circuit adds the complement of \<open>b\<close> with the carry
  seeded to false: its bit-level circuit, called on the blasted bits of 3 and 5, yields the
  bits of 253, one less than the difference.
\<close>

theorem subtractor_diverges:
  "aigerbv_subtractor unbound_negater 8 ''output'' ''left'' ''right'' False
     = Inl (NameError ''negater'') \<and>
   (case aigerbv_subtractor aigerbv_bitwise_negate 8 ''output'' ''left'' ''right'' False of
      Inl e \<Rightarrow> Inl e
    | Inr c \<Rightarrow>
        ebind (aigerbv_blast [''left'' \<mapsto> bits_of 8 3, ''right'' \<mapsto> bits_of 8 5] (input_map c))
          (\<lambda>inp. aig_call (bv_aig c) (case inp of None \<Rightarrow> Map.empty | Some i \<Rightarrow> i) None))
     = Inr (zip (named_indexes 8 ''output'') (bits_of 8 253), []) \<and>
   bits_of 8 253 \<noteq> bits_of 8 254"
  by code_simp

text \<open>The unbound name is reached before anything else, whatever the arguments.\<close>

lemma subtractor_name_error:
  "aigerbv_subtractor unbound_negater wordlen out left right has_carry
     = Inl (NameError ''negater'')"
  by (simp add: aigerbv_subtractor_def unbound_negater_def)

section \<open>Selection\<close>

text \<open>Inputs are kept by every operator, and two operands that share an input cannot be combined.\<close>

lemma gbind_Inr: "gbind m f k = Inr r \<Longrightarrow> \<exists>x k'. m k = Inr (x, k') \<and> f x k' = Inr r"
  by (auto simp: gbind_def split: sum.splits)

lemma lift_Inr: "lift r k = Inr (x, k') \<Longrightarrow> r = Inr x \<and> k' = k"
  by (auto simp: lift_def split: sum.splits)

lemma rshift_inputs: "rshift A B = Inr C \<Longrightarrow> inputs A \<subseteq> inputs C"
  by (auto simp: rshift_def Let_def ebind_def bm_add_def inputs_def keys_def
      split: if_splits sum.splits)

lemma then_gate_inputs:
  "then_gate e g = Inr e' \<Longrightarrow> set (expr_inputs e) \<subseteq> set (expr_inputs e')"
proof (cases e)
  case (BVExpr sg c)
  assume "then_gate e g = Inr e'"
  with BVExpr obtain c' where c': "rshift c g = Inr c'" "e' = BVExpr sg c'"
    by (auto simp: ebind_def split: sum.splits)
  from rshift_inputs [OF c'(1)] show ?thesis
    by (simp add: BVExpr c'(2) inputs_def keys_def)
next
  case (Wrapped sg e0)
  assume "then_gate e g = Inr e'"
  with Wrapped show ?thesis by simp
qed

lemma unary_gate_inputs:
  assumes "unary_gate gate e k = Inr (e', k')"
  shows "set (expr_inputs e) \<subseteq> set (expr_inputs e')"
proof -
  from assms obtain n i name where "then_gate e (gate n i name) = Inr e'"
    unfolding unary_gate_def
    by (auto dest!: gbind_Inr lift_Inr split: option.splits)
  then show ?thesis by (rule then_gate_inputs)
qed

lemma repeat_inputs:
  assumes "expr_repeat e n name = Inr e'"
  shows "set (expr_inputs e) \<subseteq> set (expr_inputs e')"
proof -
  from assms obtain out where "then_gate e (repeat_gate n out name) = Inr e'"
    unfolding expr_repeat_def
    by (auto simp: ebind_def split: sum.splits if_splits option.splits)
  then show ?thesis by (rule then_gate_inputs)
qed

lemma aigbv_or_inputs:
  assumes "aigbv_or A B f1 f2 = Inr C"
  shows "inputs A \<inter> inputs B = {}" and "inputs C = inputs A \<union> inputs B"
proof -
  show d: "inputs A \<inter> inputs B = {}"
  proof (rule ccontr)
    assume "inputs A \<inter> inputs B \<noteq> {}"
    from or_shared_inputs_error [OF this, of f1 f2] assms show False by auto
  qed
  then have "filter (\<lambda>n. n \<in> inputs B) (remdups (map fst (imap A))) = []"
    by (auto simp: filter_empty_conv inputs_def keys_def)
  with assms have "imap C = imap A @ imap B"
    by (auto simp: aigbv_or_def Let_def ebind_def bm_add_def split: if_splits sum.splits)
  then show "inputs C = inputs A \<union> inputs B"
    by (simp add: inputs_def keys_append)
qed

lemma getitem_o_imap: "getitem c ''o'' r = Inr c' \<Longrightarrow> imap c' = imap c"
  by (auto simp: getitem_def Let_def ebind_def split: if_splits sum.splits)

lemma with_output_inputs:
  "with_output e v = Inr e' \<Longrightarrow> expr_inputs e' = expr_inputs e"
proof (cases e)
  case (BVExpr sg c)
  assume "with_output e v = Inr e'"
  with BVExpr obtain r c' where "getitem c ''o'' r = Inr c'" "e' = BVExpr sg c'"
    by (auto simp: ebind_def split: list.splits sum.splits)
  with getitem_o_imap [of c r c'] BVExpr show ?thesis by simp
next
  case (Wrapped sg e0)
  assume "with_output e v = Inr e'"
  with Wrapped show ?thesis by simp
qed

lemma expr_aigbv_inputs: "expr_aigbv e = Inr c \<Longrightarrow> set (expr_inputs e) = inputs c"
  by (cases e) (auto simp: inputs_def keys_def)

lemma binary_gate_parts:
  assumes "binary_gate gate e1 e2 sc False k = Inr (e', k')"
  shows "\<exists>c1 expr2 c2 f1 f2 circ3 g c.
      expr_aigbv e1 = Inr c1 \<and> expr_aigbv expr2 = Inr c2 \<and>
      expr_inputs expr2 = expr_inputs e2 \<and>
      aigbv_or c1 c2 f1 f2 = Inr circ3 \<and> rshift circ3 g = Inr c \<and>
      e' = BVExpr (is_signed e1) c"
  using assms
  unfolding binary_gate_def gbind_def lift_def fresh_def fresh_output_def aigbv_or_gen_def Let_def
  by (fastforce split: sum.splits prod.splits if_splits option.splits dest: with_output_inputs)

lemma binary_gate_inputs:
  assumes "binary_gate gate e1 e2 sc False k = Inr (e', k')"
  shows "set (expr_inputs e1) \<union> set (expr_inputs e2) \<subseteq> set (expr_inputs e')"
    and "set (expr_inputs e1) \<inter> set (expr_inputs e2) = {}"
proof -
  from binary_gate_parts [OF assms] obtain c1 expr2 c2 f1 f2 circ3 g c where
    p: "expr_aigbv e1 = Inr c1" "expr_aigbv expr2 = Inr c2"
      "expr_inputs expr2 = expr_inputs e2"
      "aigbv_or c1 c2 f1 f2 = Inr circ3" "rshift circ3 g = Inr c"
      "e' = BVExpr (is_signed e1) c"
    by blast
  note oi = aigbv_or_inputs [OF p(4)]
  from rshift_inputs [OF p(5)] have "inputs circ3 \<subseteq> set (expr_inputs e')"
    by (simp add: p(6) inputs_def keys_def)
  with oi expr_aigbv_inputs [OF p(1)] expr_aigbv_inputs [OF p(2)] p(3)
  show "set (expr_inputs e1) \<union> set (expr_inputs e2) \<subseteq> set (expr_inputs e')"
    and "set (expr_inputs e1) \<inter> set (expr_inputs e2) = {}"
    by auto
qed

lemma ite_parts:
  assumes "ite test a b k = Inr (r, k')"
  shows "\<exists>n name t' k1 nt k2 l k3 rr k4.
      expr_repeat test n name = Inr t' \<and>
      unary_gate bitwise_negate t' k1 = Inr (nt, k2) \<and>
      binary_gate bitwise_or nt a (Some same_expr) False k2 = Inr (l, k3) \<and>
      binary_gate bitwise_or t' b (Some same_expr) False k3 = Inr (rr, k4) \<and>
      binary_gate bitwise_and l rr (Some same_expr) False k4 = Inr (r, k')"
  using assms
  unfolding ite_def expr_invert_def expr_or_def expr_and_def
  by (fastforce simp: gbind_def lift_def fresh_def
      split: sum.splits prod.splits if_splits option.splits)


text \<open>
  C8. The claim is that \<open>ite\<close> broadcasts the test bit and computes
  \<^verbatim>\<open>(~test | a) & (test | b)\<close>, and that it selects \<open>a\<close> for the test 1 and \<open>b\<close> for the test 0.
  The code builds that term, but both operands of the final conjunction contain the inputs
  of the test, and the parallel composition of word circuits fails on shared inputs (the
  defect of C2): for every test that has an input, whatever the branches, \<open>ite\<close> fails and
  returns no expression.
\<close>

theorem ite_fails_on_inputs:
  assumes "set (expr_inputs test) \<noteq> {}"
  shows "\<exists>err. ite test a b k = Inl err"
proof (cases "ite test a b k")
  case (Inl err)
  then show ?thesis by blast
next
  case (Inr res)
  obtain r k' where "res = (r, k')" by (cases res)
  with Inr ite_parts [of test a b k r k'] obtain n name t' k1 nt k2 l k3 rr k4 where
    p: "expr_repeat test n name = Inr t'"
      "unary_gate bitwise_negate t' k1 = Inr (nt, k2)"
      "binary_gate bitwise_or nt a (Some same_expr) False k2 = Inr (l, k3)"
      "binary_gate bitwise_or t' b (Some same_expr) False k3 = Inr (rr, k4)"
      "binary_gate bitwise_and l rr (Some same_expr) False k4 = Inr (r, k')"
    by blast
  from repeat_inputs [OF p(1)] unary_gate_inputs [OF p(2)]
    binary_gate_inputs(1) [OF p(3)] binary_gate_inputs(1) [OF p(4)]
  have "set (expr_inputs test) \<subseteq> set (expr_inputs l) \<inter> set (expr_inputs rr)"
    by blast
  with binary_gate_inputs(2) [OF p(5)] assms show ?thesis by auto
qed


theorem ite_fails_on_inputs_witness:
  "\<exists>err. ite (BVExpr False (identity_gate 1 ''t'' ''o''))
            (BVExpr False (identity_gate 2 ''a'' ''p''))
            (BVExpr False (identity_gate 2 ''b'' ''q'')) 0 = Inl err"
  using ite_fails_on_inputs [of "BVExpr False (identity_gate 1 ''t'' ''o'')"
      "BVExpr False (identity_gate 2 ''a'' ''p'')" "BVExpr False (identity_gate 2 ''b'' ''q'')" 0]
  by (simp add: identity_gate_def)

text \<open>
  Runs. With a symbolic test \<open>ite\<close> fails; with a constant test it fails when the two
  branches share an input; with a constant test and branches over different inputs it is
  built and selects as the claim says.
\<close>

lemma ite_run_symbolic:
  "run (gbind (atom 1 (StrVal ''t'') False) (\<lambda>t.
        gbind (atom 2 (StrVal ''a'') False) (\<lambda>a.
        gbind (atom 2 (StrVal ''b'') False) (\<lambda>b. ite t a b)))) = Inl UnknownSignal"
  by code_simp

lemma ite_run_shared:
  "run (gbind (atom 1 (IntVal 1) False) (\<lambda>t.
        gbind (atom 2 (StrVal ''a'') False) (\<lambda>a.
        gbind (atom 2 (StrVal ''a'') False) (\<lambda>b. ite t a b)))) = Inl UnknownSignal"
  by code_simp

lemma ite_run_constant:
  "run (gbind (atom 1 (IntVal 1) False) (\<lambda>t.
        gbind (atom 2 (StrVal ''a'') False) (\<lambda>a.
        gbind (atom 2 (StrVal ''b'') False) (\<lambda>b.
        gbind (ite t a b) (\<lambda>r.
        lift (expr_call r [(''a'', [True, False]), (''b'', [False, True])]))))))
     = Inr [True, False] \<and>
   run (gbind (atom 1 (IntVal 0) False) (\<lambda>t.
        gbind (atom 2 (StrVal ''a'') False) (\<lambda>a.
        gbind (atom 2 (StrVal ''b'') False) (\<lambda>b.
        gbind (ite t a b) (\<lambda>r.
        lift (expr_call r [(''a'', [True, False]), (''b'', [False, True])]))))))
     = Inr [False, True]"
  by code_simp

section \<open>Operations of an expression with itself\<close>









lemma same_object_wraps:
  assumes "expr_size e = Inr s"
  shows "expr_add gate e e True k = Inr (Wrapped (is_signed e) e, k)"
    and "expr_and e e True k = Inr (Wrapped (is_signed e) e, k)"
    and "expr_or e e True k = Inr (Wrapped (is_signed e) e, k)"
  using assms
  by (simp_all add: expr_add_def expr_and_def expr_or_def binary_gate_def gbind_def lift_def
      same_expr_def)

lemma wrapped_call_fails: "\<exists>err. expr_call (Wrapped sg e) vals = Inl err"
  by (cases "expr_call e vals") (auto simp: ebind_def split: list.splits)




section \<open>Round trip through the bundle maps of \<^verbatim>\<open>aiger_bv\<close>\<close>

text \<open>
  Bit names determine their root and their index, so the bundles of different words do not
  meet. For the bundle maps modelled from the specification, blasting a word-value mapping
  whose values have the lengths of their bundles and unblasting the result gives the mapping
  back: the round trip that the module \<^verbatim>\<open>aigerbv\<close> misses by the misspelt name holds there.
\<close>

lemma str_nat_digits: "set (str_nat n) \<subseteq> set ''0123456789''"
proof (induction n rule: str_nat.induct)
  case (1 n)
  have d: "digit_char d \<in> set ''0123456789''" if "d < 10" for d
    unfolding digit_char_def using that by (intro nth_mem) simp
  show ?case
  proof (cases "n < 10")
    case True
    with d [of n] show ?thesis by (simp add: str_nat_small)
  next
    case False
    with "1.IH" d [of "n mod 10"] show ?thesis by (simp add: str_nat_big)
  qed
qed

lemma bracket_not_in_index: "CHR ''['' \<notin> set (str_nat i @ '']'')"
  using str_nat_digits [of i] by auto

lemma takeWhile_until:
  "c \<notin> set zs \<Longrightarrow> takeWhile (\<lambda>x. x \<noteq> c) (zs @ c # ws) = zs"
  by (induction zs) auto

lemma split_last:
  assumes "c \<notin> set ys" and "c \<notin> set ys'" and "xs @ c # ys = xs' @ c # ys'"
  shows "xs = xs' \<and> ys = ys'"
proof -
  from assms(3) have "rev (xs @ c # ys) = rev (xs' @ c # ys')" by simp
  then have e: "rev ys @ c # rev xs = rev ys' @ c # rev xs'" by simp
  from assms(1,2) have n: "c \<notin> set (rev ys)" "c \<notin> set (rev ys')" by simp_all
  from e have "takeWhile (\<lambda>x. x \<noteq> c) (rev ys @ c # rev xs) =
      takeWhile (\<lambda>x. x \<noteq> c) (rev ys' @ c # rev xs')" by simp
  then have "rev ys = rev ys'"
    unfolding takeWhile_until [OF n(1)] takeWhile_until [OF n(2)] .
  with e show ?thesis by simp
qed

lemma indexed_inj_root: "indexed k i = indexed k' j \<Longrightarrow> k = k' \<and> i = j"
proof -
  assume e: "indexed k i = indexed k' j"
  then have "k @ CHR ''['' # (str_nat i @ '']'') = k' @ CHR ''['' # (str_nat j @ '']'')"
    by (simp add: indexed_def)
  from split_last [OF bracket_not_in_index bracket_not_in_index this] have "k = k'" by simp
  with e indexed_inj [of k i j] show ?thesis by simp
qed

lemma map_of_block:
  "j < length v \<Longrightarrow> map_of (zip (bundle_bits k (length v)) v) (indexed k j) = Some (v ! j)"
proof -
  assume j: "j < length v"
  have "zip (bundle_bits k (length v)) v = map (\<lambda>i. (indexed k i, v ! i)) [0..<length v] @ []"
    by (intro nth_equalityI) (simp_all add: bundle_bits_def named_indexes_def)
  with map_of_indexed [OF j, of k "\<lambda>i. v ! i" "[]"] show ?thesis by simp
qed

lemma block_other_root:
  "k \<noteq> k0 \<Longrightarrow> indexed k j \<notin> fst ` set (zip (bundle_bits k0 n) v)"
proof
  assume k: "k \<noteq> k0" and "indexed k j \<in> fst ` set (zip (bundle_bits k0 n) v)"
  then obtain y where "(indexed k j, y) \<in> set (zip (bundle_bits k0 n) v)" by auto
  then have "indexed k j \<in> set (bundle_bits k0 n)" by (rule set_zip_leftD)
  then obtain i where "indexed k j = indexed k0 i"
    by (auto simp: bundle_bits_def named_indexes_def)
  with indexed_inj_root [of k j k0 i] k show False by simp
qed

lemma map_of_blasted:
  assumes "distinct (map fst vals)" and "(k, v) \<in> set vals" and "j < length v"
  shows "map_of (blasted vals) (indexed k j) = Some (v ! j)"
  using assms
proof (induction vals)
  case Nil
  then show ?case by simp
next
  case (Cons kv vals)
  obtain k0 v0 where kv: "kv = (k0, v0)" by (cases kv)
  show ?case
  proof (cases "k = k0")
    case True
    with Cons.prems kv have "v = v0" by (auto simp: rev_image_eqI)
    with True map_of_block [OF Cons.prems(3)] show ?thesis
      by (simp add: blasted_def kv map_add_def)
  next
    case False
    with Cons.prems kv have "(k, v) \<in> set vals" "distinct (map fst vals)" by auto
    from Cons.IH [OF this(2,1) Cons.prems(3)]
    have "map_of (blasted vals) (indexed k j) = Some (v ! j)" .
    moreover from block_other_root [OF False, of j "length v0" v0]
    have "map_of (zip (bundle_bits k0 (length v0)) v0) (indexed k j) = None"
      by (simp add: map_of_eq_None_iff)
    ultimately show ?thesis
      by (simp add: blasted_def kv map_add_def)
  qed
qed

lemma bm_blast_blasted:
  assumes "\<forall>(k, v) \<in> set vals. map_of m k = Some (length v)"
  shows "bm_blast m vals = Inr (blasted vals)"
  using assms by (induction vals) (auto simp: blasted_def bm_getitem_def)

lemma collect_nth:
  "length ns = length v \<Longrightarrow> (\<And>j. j < length v \<Longrightarrow> f (ns ! j) = Some (v ! j)) \<Longrightarrow>
   collect f ns = Inr v"
proof (induction ns arbitrary: v)
  case Nil
  then show ?case by simp
next
  case (Cons n ns)
  then obtain b bs where v: "v = b # bs" by (cases v) auto
  from Cons.prems(2) [of 0] v have h: "f n = Some b" by simp
  have "collect f ns = Inr bs"
  proof (rule Cons.IH)
    show "length ns = length bs" using Cons.prems(1) v by simp
    fix j assume "j < length bs"
    with Cons.prems(2) [of "Suc j"] v show "f (ns ! j) = Some (bs ! j)" by simp
  qed
  with h v show ?case by simp
qed

lemma bm_unblast_blasted:
  assumes "distinct (map fst all)" and "set vals \<subseteq> set all"
  shows "bm_unblast (map (\<lambda>(k, v). (k, length v)) vals) (map_of (blasted all)) = Inr vals"
  using assms(2)
proof (induction vals)
  case Nil
  then show ?case by simp
next
  case (Cons kv vals)
  obtain k v where kv: "kv = (k, v)" by (cases kv)
  with Cons.prems have in_all: "(k, v) \<in> set all" by simp
  have "collect (map_of (blasted all)) (bundle_bits k (length v)) = Inr v"
  proof (rule collect_nth)
    show "length (bundle_bits k (length v)) = length v"
      by (simp add: bundle_bits_def named_indexes_def)
    fix j assume j: "j < length v"
    then have "bundle_bits k (length v) ! j = indexed k j"
      by (simp add: bundle_bits_def named_indexes_def)
    with map_of_blasted [OF assms(1) in_all j]
    show "map_of (blasted all) (bundle_bits k (length v) ! j) = Some (v ! j)" by simp
  qed
  moreover from Cons have "bm_unblast (map (\<lambda>(k, v). (k, length v)) vals) (map_of (blasted all)) = Inr vals"
    by simp
  ultimately show ?case by (simp add: kv)
qed

lemma bm_round_trip:
  assumes "distinct (map fst vals)" and "m = map (\<lambda>(k, v). (k, length v)) vals"
  shows "ebind (bm_blast m vals) (\<lambda>bits. bm_unblast m (map_of bits)) = Inr vals"
proof -
  have "map_of m k = Some (length v)" if "(k, v) \<in> set vals" for k v
  proof -
    have "map_of (map (\<lambda>(k, v). (k, length v)) vals) k = map_option length (map_of vals k)"
      by (induction vals) auto
    with that assms(1) show ?thesis by (simp add: assms(2))
  qed
  then have "bm_blast m vals = Inr (blasted vals)"
    by (intro bm_blast_blasted) auto
  with bm_unblast_blasted [OF assms(1), of vals] show ?thesis
    by (simp add: assms(2))
qed

end
